theory Spec2Isabelle
  imports Complex_Main "HOL-Library.Multiset" "HOL-Library.Log_Nat"
begin

section \<open>Agent Graph: a shallow embedding of \<^verbatim>\<open>src/core.ts\<close> and \<^verbatim>\<open>src/utils.ts\<close>\<close>

text \<open>
  The engine is TypeScript running on a JavaScript heap.  The embedding keeps what the
  engine's own code can observe:
  \<^item> JavaScript values are primitives or references to plain objects that live in a heap;
    an object is its list of own properties in insertion order.  Arrays that the engine
    itself creates or consumes (the branch list of a fork, the item list of a batch, the
    contexts given to a join) are HOL lists.  Arrays, functions, dates and accessors stored
    \<^emph>\<open>inside\<close> a context are not represented.
  \<^item> Numbers stored in contexts are integers (exact in a double below \<open>2^53\<close>).  Delays are
    IEEE 754 doubles, and their products are rounded as the machine rounds them.
  \<^item> A user-supplied function (prepare, execute, finalize, selector, collector, join
    function) takes the heap and returns either a thrown value or a result, with the heap
    it leaves behind.
  \<^item> An awaited call is run to completion at the point of its \<^verbatim>\<open>await\<close>: the interleaving
    of suspended tasks is not represented.  Log output and timers are not represented.
  \<^item> An object keeps its properties in insertion order.  JavaScript enumerates the keys
    that are array indices first, in ascending order, and the others in insertion order;
    \<open>objectValues\<close> does so where the order reaches user code, in the array that
    \<^verbatim>\<open>Object.values(results)\<close> hands to the results-collector of a batch.
  \<^item> Pipelines, executors, \<^verbatim>\<open>executeNode\<close> and the asynchronous \<^verbatim>\<open>When\<close> are not
    embedded; no statement below is about them.
\<close>

subsection \<open>Values, objects and the heap\<close>

datatype val = Undefined | Null | Bool bool | Num int | Str string | Ref nat

text \<open>An object is the list of its own properties, in insertion order; the heap is the
  list of all objects ever allocated, and \<open>Ref a\<close> points at position \<open>a\<close>.\<close>

type_synonym props = "(string \<times> val) list"
type_synonym heap = "props list"

text \<open>What user code or the engine throws: an \<^verbatim>\<open>Error\<close> with its message, or any other
  value, kept as the string \<^verbatim>\<open>String(value)\<close> that the engine's handlers read.\<close>

datatype thrown = ErrorObj string | Other string

type_synonym 'a res = "(thrown + 'a) \<times> heap"

text \<open>\<^verbatim>\<open>error instanceof Error ? error : new Error(String(error))\<close> and
  \<^verbatim>\<open>error instanceof Error ? error.message : String(error)\<close>.\<close>

fun typedError :: "thrown \<Rightarrow> thrown" where
  "typedError (ErrorObj m) = ErrorObj m"
| "typedError (Other s) = ErrorObj s"

fun messageOf :: "thrown \<Rightarrow> string" where
  "messageOf (ErrorObj m) = m"
| "messageOf (Other s) = s"

text \<open>Sequencing of two steps, the first of which may throw.\<close>

definition andThen :: "(thrown + 'a) \<times> 's \<Rightarrow> ('a \<Rightarrow> 's \<Rightarrow> (thrown + 'b) \<times> 's) \<Rightarrow> (thrown + 'b) \<times> 's" where
  "andThen m f = (case m of (Inl e, h) \<Rightarrow> (Inl e, h) | (Inr x, h) \<Rightarrow> f x h)"

text \<open>JavaScript truthiness, \<^verbatim>\<open>typeof v === 'object'\<close>, and \<^verbatim>\<open>a || b\<close>.\<close>

fun truthy :: "val \<Rightarrow> bool" where
  "truthy Undefined = False"
| "truthy Null = False"
| "truthy (Bool b) = b"
| "truthy (Num n) = (n \<noteq> 0)"
| "truthy (Str s) = (s \<noteq> [])"
| "truthy (Ref a) = True"

fun isObject :: "val \<Rightarrow> bool" where
  "isObject Null = True"
| "isObject (Ref a) = True"
| "isObject v = False"

definition orElse :: "val \<Rightarrow> val \<Rightarrow> val" where
  "orElse a b = (if truthy a then a else b)"

text \<open>Decimal digits of a natural number, for \<^verbatim>\<open>String(n)\<close> and for the index keys of
  a string that is spread.\<close>

function showNat :: "nat \<Rightarrow> string" where
  "showNat n = (if n < 10 then [char_of (48 + n)]
                else showNat (n div 10) @ [char_of (48 + n mod 10)])"
  by pat_completeness auto
termination
  by (relation "measure id") auto

declare showNat.simps [simp del]

text \<open>\<^verbatim>\<open>String(v)\<close>; a plain object prints as \<^verbatim>\<open>[object Object]\<close>.\<close>

fun toString :: "val \<Rightarrow> string" where
  "toString Undefined = ''undefined''"
| "toString Null = ''null''"
| "toString (Bool b) = (if b then ''true'' else ''false'')"
| "toString (Num n) = (if n < 0 then CHR ''-'' # showNat (nat (- n)) else showNat (nat n))"
| "toString (Str s) = s"
| "toString (Ref a) = ''[object Object]''"

text \<open>Own properties: \<^verbatim>\<open>obj[key]\<close> (\<^verbatim>\<open>undefined\<close> when absent), \<^verbatim>\<open>key in obj\<close> and
  the assignment \<^verbatim>\<open>obj[key] = value\<close>, which replaces in place or appends.  Properties
  inherited from \<^verbatim>\<open>Object.prototype\<close> are not represented; the engine probes none of
  them.\<close>

definition getProp :: "props \<Rightarrow> string \<Rightarrow> val" where
  "getProp ps k = (case map_of ps k of None \<Rightarrow> Undefined | Some v \<Rightarrow> v)"

definition hasProp :: "props \<Rightarrow> string \<Rightarrow> bool" where
  "hasProp ps k = (map_of ps k \<noteq> None)"

fun setProp :: "string \<Rightarrow> val \<Rightarrow> props \<Rightarrow> props" where
  "setProp k v [] = [(k, v)]"
| "setProp k v (p # ps) = (if fst p = k then (k, v) # ps else p # setProp k v ps)"

text \<open>The characters of a string as the properties \<^verbatim>\<open>"0"\<close>, \<^verbatim>\<open>"1"\<close>, ... that a spread
  or \<^verbatim>\<open>Object.entries\<close> sees.\<close>

fun charProps :: "nat \<Rightarrow> string \<Rightarrow> props" where
  "charProps i [] = []"
| "charProps i (c # cs) = (showNat i, Str [c]) # charProps (Suc i) cs"

text \<open>The own enumerable properties of a value, as \<^verbatim>\<open>{...v}\<close> and
  \<^verbatim>\<open>Object.entries(v)\<close> read them.  A reference outside the heap cannot arise; it reads
  as an object without properties.  (The \<^verbatim>\<open>length\<close> of a string is not enumerable and is
  not represented.)\<close>

fun propsOf :: "heap \<Rightarrow> val \<Rightarrow> props" where
  "propsOf h (Ref a) = (if a < length h then h ! a else [])"
| "propsOf h (Str s) = charProps 0 s"
| "propsOf h v = []"

definition getV :: "heap \<Rightarrow> val \<Rightarrow> string \<Rightarrow> val" where
  "getV h v k = getProp (propsOf h v) k"

definition hasKey :: "heap \<Rightarrow> val \<Rightarrow> string \<Rightarrow> bool" where
  "hasKey h v k = hasProp (propsOf h v) k"

text \<open>An object literal allocates a fresh object at the end of the heap.\<close>

definition alloc :: "props \<Rightarrow> heap \<Rightarrow> val \<times> heap" where
  "alloc ps h = (Ref (length h), h @ [ps])"

text \<open>\<^verbatim>\<open>context[property] = value\<close> on an existing object.\<close>

fun assign :: "val \<Rightarrow> string \<Rightarrow> val \<Rightarrow> heap \<Rightarrow> heap" where
  "assign (Ref a) k v h = (if a < length h then h[a := setProp k v (h ! a)] else h)"
| "assign w k v h = h"





subsection \<open>\<^verbatim>\<open>utils.ts\<close>: \<^verbatim>\<open>deepCopy\<close>, \<^verbatim>\<open>setInContext\<close>, \<^verbatim>\<open>getFromContext\<close>\<close>

text \<open>
  \<^verbatim>\<open>deepCopy = (obj) => JSON.parse(JSON.stringify(obj))\<close>.
  \<^verbatim>\<open>JSON.stringify\<close> reads the heap into a text, here a tree.  It keeps the stack of the
  objects it is inside and throws a \<^verbatim>\<open>TypeError\<close> on meeting one of them again; a
  property whose value is \<^verbatim>\<open>undefined\<close> is left out, and for \<^verbatim>\<open>undefined\<close> itself
  there is no text at all.  The first argument bounds the nesting depth; \<open>deepCopy\<close>
  passes one more than the number of objects in the heap, which no acyclic nesting
  reaches.
\<close>

datatype json = JNull | JBool bool | JNum int | JStr string | JObj "(string \<times> json) list"

datatype rendering = Circular | Absent | Text json

fun collect :: "(string \<times> rendering) list \<Rightarrow> (string \<times> json) list option" where
  "collect [] = Some []"
| "collect ((k, Circular) # r) = None"
| "collect ((k, Absent) # r) = collect r"
| "collect ((k, Text j) # r) = (case collect r of None \<Rightarrow> None | Some js \<Rightarrow> Some ((k, j) # js))"

fun stringify :: "nat \<Rightarrow> heap \<Rightarrow> nat list \<Rightarrow> val \<Rightarrow> rendering" where
  "stringify n h stack Undefined = Absent"
| "stringify n h stack Null = Text JNull"
| "stringify n h stack (Bool b) = Text (JBool b)"
| "stringify n h stack (Num i) = Text (JNum i)"
| "stringify n h stack (Str s) = Text (JStr s)"
| "stringify 0 h stack (Ref a) = Circular"
| "stringify (Suc n) h stack (Ref a) =
     (if a \<in> set stack then Circular
      else case collect (map (\<lambda>p. (fst p, stringify n h (a # stack) (snd p))) (propsOf h (Ref a))) of
             None \<Rightarrow> Circular
           | Some js \<Rightarrow> Text (JObj js))"

text \<open>\<^verbatim>\<open>JSON.parse\<close> builds fresh objects, the inner ones first.\<close>

fun parse :: "json \<Rightarrow> heap \<Rightarrow> val \<times> heap"
  and parse_props :: "(string \<times> json) list \<Rightarrow> heap \<Rightarrow> props \<times> heap" where
  "parse JNull h = (Null, h)"
| "parse (JBool b) h = (Bool b, h)"
| "parse (JNum i) h = (Num i, h)"
| "parse (JStr s) h = (Str s, h)"
| "parse (JObj js) h = (case parse_props js h of (ps, h') \<Rightarrow> alloc ps h')"
| "parse_props [] h = ([], h)"
| "parse_props (kj # js) h =
     (case parse (snd kj) h of (v, h1) \<Rightarrow>
        (case parse_props js h1 of (ps, h2) \<Rightarrow> ((fst kj, v) # ps, h2)))"

definition deepCopy :: "val \<Rightarrow> heap \<Rightarrow> val res" where
  "deepCopy v h =
     (case stringify (Suc (length h)) h [] v of
        Circular \<Rightarrow> (Inl (ErrorObj ''TypeError: Converting circular structure to JSON''), h)
      | Absent \<Rightarrow> (Inl (ErrorObj ''SyntaxError: undefined is not valid JSON''), h)
      | Text j \<Rightarrow> (case parse j h of (v', h') \<Rightarrow> (Inr v', h')))"


text \<open>\<^verbatim>\<open>setInContext = (context, key, value) => ({ ...context, [key]: value })\<close>: a new
  object; the one passed in is left as it was.\<close>

definition setInContext :: "val \<Rightarrow> string \<Rightarrow> val \<Rightarrow> heap \<Rightarrow> val \<times> heap" where
  "setInContext context key v h = alloc (setProp key v (propsOf h context)) h"

text \<open>\<^verbatim>\<open>getFromContext = (context, key, defaultValue) => key in context ? context[key] : defaultValue\<close>,
  for a context that is an object (on a primitive the \<^verbatim>\<open>in\<close> operator throws; the one
  caller that can pass a primitive, the default condition of a \<^verbatim>\<open>When\<close>, writes that
  case out).\<close>

definition getFromContext :: "heap \<Rightarrow> val \<Rightarrow> string \<Rightarrow> val \<Rightarrow> val" where
  "getFromContext h context key defaultValue =
     (if hasKey h context key then getV h context key else defaultValue)"

subsection \<open>Constants (\<^verbatim>\<open>constants.ts\<close>)\<close>

definition DEFAULT_TRANSITION_OUTCOME :: string where
  "DEFAULT_TRANSITION_OUTCOME = ''default''"

definition DEFAULT_JOIN_OUTCOME :: string where
  "DEFAULT_JOIN_OUTCOME = ''joined''"

definition DEFAULT_FORK_OUTCOME :: string where
  "DEFAULT_FORK_OUTCOME = ''forked''"

definition ERROR_EXHAUSTED_RETRIES :: string where
  "ERROR_EXHAUSTED_RETRIES = ''Exhausted all retry attempts''"

subsection \<open>Backoff (\<^verbatim>\<open>utils.ts\<close>, \<^verbatim>\<open>calculateBackoff\<close>)\<close>

text \<open>
  A JavaScript number is an IEEE 754 double: a finite value \<open>m * 2^q\<close> with
  \<open>\<bar>m\<bar> < 2^53\<close> and \<open>-1074 \<le> q \<le> 971\<close>, an infinity, or \<^verbatim>\<open>NaN\<close>.  A finite double is
  kept as the rational it denotes; the sign of a zero is not represented (\<^verbatim>\<open>0 === -0\<close>).
\<close>

datatype number = Fin rat | PosInf | NegInf | NaN

text \<open>Rounding to the nearest integer, a tie going to the even one.\<close>

definition roundEven :: "rat \<Rightarrow> int" where
  "roundEven x =
     (let f = \<lfloor>x\<rfloor>; r = x - of_int f
      in if r < 1 / 2 then f else if 1 / 2 < r then f + 1 else if even f then f else f + 1)"

text \<open>The binary exponent of a rational \<open>x \<noteq> 0\<close>: the \<open>e\<close> with \<open>2^e \<le> \<bar>x\<bar> < 2^(e+1)\<close>.
  For \<open>\<bar>x\<bar> \<ge> 1\<close> it is one less than the number of bits of the integer part; for
  \<open>\<bar>x\<bar> < 1\<close> it is read from the reciprocal.\<close>

definition exponentOf :: "rat \<Rightarrow> int" where
  "exponentOf x =
     (if 1 \<le> \<bar>x\<bar> then bitlen \<lfloor>\<bar>x\<bar>\<rfloor> - 1
      else - bitlen (\<lceil>1 / \<bar>x\<bar>\<rceil> - 1))"

text \<open>
  The double that an exact result \<open>x\<close> is rounded to (round to nearest, ties to even):
  \<open>x\<close> is rounded to a multiple of \<open>2^q\<close>, where \<open>q\<close> leaves 53 significant bits and is
  no less than \<open>-1074\<close> (the subnormal range); a result of magnitude \<open>2^1024\<close> or more is
  an infinity.
\<close>

definition fl :: "rat \<Rightarrow> number" where
  "fl x =
     (if x = 0 then Fin 0
      else let q = max (exponentOf x - 52) (- 1074);
               y = of_int (roundEven (x / 2 powi q)) * 2 powi q
           in if 2 ^ 1024 \<le> \<bar>y\<bar> then (if 0 < x then PosInf else NegInf) else Fin y)"

text \<open>The product \<^verbatim>\<open>a * b\<close> of two numbers.\<close>

fun mul :: "number \<Rightarrow> number \<Rightarrow> number" where
  "mul (Fin a) (Fin b) = fl (a * b)"
| "mul NaN b = NaN"
| "mul a NaN = NaN"
| "mul (Fin a) PosInf = (if a = 0 then NaN else if 0 < a then PosInf else NegInf)"
| "mul (Fin a) NegInf = (if a = 0 then NaN else if 0 < a then NegInf else PosInf)"
| "mul PosInf (Fin b) = (if b = 0 then NaN else if 0 < b then PosInf else NegInf)"
| "mul NegInf (Fin b) = (if b = 0 then NaN else if 0 < b then NegInf else PosInf)"
| "mul PosInf PosInf = PosInf"
| "mul PosInf NegInf = NegInf"
| "mul NegInf PosInf = NegInf"
| "mul NegInf NegInf = PosInf"

text \<open>
  The attempt number is a loop counter plus one, an integer: \<open>ofInt n\<close> is the double of
  the integer \<open>n\<close>, and \<open>pow2 k\<close> is \<^verbatim>\<open>Math.pow(2, k)\<close> for an integer \<open>k\<close>, the double of
  \<open>2^k\<close>.  (For \<open>\<bar>attempt\<bar> \<le> 2^53\<close> the difference \<^verbatim>\<open>attempt - 1\<close> is exact; beyond that
  \<^verbatim>\<open>Math.pow(2, attempt - 1)\<close> is \<^verbatim>\<open>Infinity\<close> or \<^verbatim>\<open>0\<close> however the difference
  rounds.)
\<close>

definition ofInt :: "int \<Rightarrow> number" where
  "ofInt n = fl (of_int n)"

definition pow2 :: "int \<Rightarrow> number" where
  "pow2 k = fl (2 powi k)"

text \<open>
  \<^verbatim>\<open>switch (strategy) { case 'linear': return baseDelayMs * attempt
     case 'exponential': return baseDelayMs * Math.pow(2, attempt - 1)
     case 'fixed': default: return baseDelayMs }\<close>
  The strategy is the string the switch compares; every other string takes the default.
\<close>

definition calculateBackoff :: "int \<Rightarrow> number \<Rightarrow> string \<Rightarrow> number" where
  "calculateBackoff attempt baseDelayMs strategy =
     (if strategy = ''linear'' then mul baseDelayMs (ofInt attempt)
      else if strategy = ''exponential'' then mul baseDelayMs (pow2 (attempt - 1))
      else baseDelayMs)"

subsection \<open>\<^verbatim>\<open>core.ts\<close>: \<^verbatim>\<open>mergeContext\<close> and \<^verbatim>\<open>updateContextProperty\<close>\<close>

text \<open>
  The filter of \<^verbatim>\<open>mergeContext\<close> drops the key \<^verbatim>\<open>metadata\<close> when
  \<^verbatim>\<open>snapshot && typeof snapshot === 'object' && snapshot.metadata &&
     typeof snapshot.metadata === 'object' && 'version' in snapshot.metadata\<close>.
\<close>

definition snapshotHasVersion :: "heap \<Rightarrow> val \<Rightarrow> bool" where
  "snapshotHasVersion h snapshot =
     (truthy snapshot \<and> isObject snapshot \<and> truthy (getV h snapshot ''metadata'')
      \<and> isObject (getV h snapshot ''metadata'')
      \<and> hasKey h (getV h snapshot ''metadata'') ''version'')"

text \<open>
  \<^verbatim>\<open>const mergeContext = (context, prepareResult): void => {
     if (!prepareResult || typeof prepareResult !== 'object' || prepareResult === null ||
         prepareResult === context || !context) { ...; return; }
     const snapshot = prepareResult['snapshot'];
     Object.entries(prepareResult).filter(([key]) => key !== 'snapshot' && !(key === 'metadata' && ...))
       .forEach(([key, value]) => context[key] !== value && (context = setInContext(context, key, value)));
   }\<close>
  The assignment \<^verbatim>\<open>context = setInContext(...)\<close> rebinds the function's own parameter to
  the new object that \<open>setInContext\<close> returns.  The model returns the final binding of that
  parameter together with the heap, so that callers can be seen to drop it: the function
  is \<^verbatim>\<open>void\<close>.
\<close>

definition mergeStep :: "val \<times> heap \<Rightarrow> string \<times> val \<Rightarrow> val \<times> heap" where
  "mergeStep ch kv =
     (if getV (snd ch) (fst ch) (fst kv) \<noteq> snd kv
      then setInContext (fst ch) (fst kv) (snd kv) (snd ch) else ch)"

definition mergeContext :: "val \<Rightarrow> val \<Rightarrow> heap \<Rightarrow> val \<times> heap" where
  "mergeContext context prepareResult h =
     (if \<not> truthy prepareResult \<or> \<not> isObject prepareResult \<or> prepareResult = Null
         \<or> prepareResult = context \<or> \<not> truthy context
      then (context, h)
      else let snapshot = getV h prepareResult ''snapshot'' in
        foldl mergeStep (context, h)
          (filter (\<lambda>kv. fst kv \<noteq> ''snapshot''
                       \<and> \<not> (fst kv = ''metadata'' \<and> snapshotHasVersion h snapshot))
             (propsOf h prepareResult)))"

text \<open>\<^verbatim>\<open>if (context && typeof context === 'object') context[property] = value\<close>: a write
  into the object itself.\<close>

definition updateContextProperty :: "val \<Rightarrow> string \<Rightarrow> val \<Rightarrow> heap \<Rightarrow> heap" where
  "updateContextProperty context property v h =
     (if truthy context \<and> isObject context then assign context property v h else h)"

subsection \<open>\<^verbatim>\<open>core.ts\<close>: nodes and the retry loops\<close>

record retryPolicy =
  maxAttempts :: int
  delayMs :: number
  backoff :: string
  retryPredicate :: "(thrown \<Rightarrow> bool) option"

text \<open>A node is its three functions and its optional retry policy.  (Its \<^verbatim>\<open>id\<close>, a random
  string used in log lines only, is left out.)  The retry predicate is a total function
  of the error.\<close>

record node =
  prepareFn :: "val \<Rightarrow> heap \<Rightarrow> val res"
  executeFn :: "val \<Rightarrow> heap \<Rightarrow> val res"
  finalizeFn :: "val \<Rightarrow> val \<Rightarrow> val \<Rightarrow> heap \<Rightarrow> string res"
  retryPolicy :: "retryPolicy option"

text \<open>\<^verbatim>\<open>createNode()\<close> and \<^verbatim>\<open>createAsyncNode()\<close> start from the same defaults:
  \<^verbatim>\<open>(ctx) => ctx\<close>, \<^verbatim>\<open>(result) => result\<close>, \<^verbatim>\<open>() => DEFAULT_TRANSITION_OUTCOME\<close>, no policy.
  Each \<^verbatim>\<open>with...\<close> calls \<^verbatim>\<open>createCompleteNode\<close> with one argument replaced.\<close>

definition createNode :: node where
  "createNode = \<lparr> prepareFn = (\<lambda>ctx h. (Inr ctx, h)),
                  executeFn = (\<lambda>r h. (Inr r, h)),
                  finalizeFn = (\<lambda>ctx p e h. (Inr DEFAULT_TRANSITION_OUTCOME, h)),
                  retryPolicy = None \<rparr>"

definition withPrepare :: "(val \<Rightarrow> heap \<Rightarrow> val res) \<Rightarrow> node \<Rightarrow> node" where
  "withPrepare fn n = n \<lparr> prepareFn := fn \<rparr>"

definition withExecuteLogic :: "(val \<Rightarrow> heap \<Rightarrow> val res) \<Rightarrow> node \<Rightarrow> node" where
  "withExecuteLogic fn n = n \<lparr> executeFn := fn \<rparr>"

definition withFinalize :: "(val \<Rightarrow> val \<Rightarrow> val \<Rightarrow> heap \<Rightarrow> string res) \<Rightarrow> node \<Rightarrow> node" where
  "withFinalize fn n = n \<lparr> finalizeFn := fn \<rparr>"

definition withRetry :: "retryPolicy \<Rightarrow> node \<Rightarrow> node" where
  "withRetry policy n = n \<lparr> retryPolicy := Some policy \<rparr>"

text \<open>
  The loop inside the synchronous \<^verbatim>\<open>execute\<close>:
  \<^verbatim>\<open>for (let attempt = 0; attempt < maxAttempts; attempt++) {
     try { return executeFn(prepareResult); }
     catch (error) {
       const typedError = error instanceof Error ? error : new Error(String(error));
       const shouldRetry = retryPredicate ? retryPredicate(typedError) : true;
       if (!shouldRetry || attempt >= maxAttempts - 1) throw typedError;
     } }
   throw new Error(ERROR_EXHAUSTED_RETRIES);\<close>
\<close>

function retrySync ::
  "(val \<Rightarrow> heap \<Rightarrow> val res) \<Rightarrow> (thrown \<Rightarrow> bool) option \<Rightarrow> int \<Rightarrow> int \<Rightarrow> val \<Rightarrow> heap \<Rightarrow> val res" where
  "retrySync exec pred maxAtt attempt prepareResult h =
     (if attempt < maxAtt then
        (case exec prepareResult h of
           (Inr r, h') \<Rightarrow> (Inr r, h')
         | (Inl error, h') \<Rightarrow>
             (if \<not> (case pred of Some p \<Rightarrow> p (typedError error) | None \<Rightarrow> True)
                 \<or> attempt \<ge> maxAtt - 1
              then (Inl (typedError error), h')
              else retrySync exec pred maxAtt (attempt + 1) prepareResult h'))
      else (Inl (ErrorObj ERROR_EXHAUSTED_RETRIES), h))"
  by pat_completeness auto
termination
  by (relation "measure (\<lambda>(exec, pred, maxAtt, attempt, p, h). nat (maxAtt - attempt))") auto

declare retrySync.simps [simp del]

text \<open>
  \<^verbatim>\<open>executeWithRetries(execute, maxAttempts, shouldRetry, onRetry)\<close>, used by the
  asynchronous node: the same loop, with \<^verbatim>\<open>await Promise.resolve(onRetry(attempt))\<close>
  before the next attempt.
\<close>

function executeWithRetries ::
  "(heap \<Rightarrow> val res) \<Rightarrow> int \<Rightarrow> (thrown \<Rightarrow> bool) \<Rightarrow> (int \<Rightarrow> heap \<Rightarrow> unit res) \<Rightarrow> int \<Rightarrow> heap \<Rightarrow> val res" where
  "executeWithRetries exec maxAtt shouldRetry onRetry attempt h =
     (if attempt < maxAtt then
        (case exec h of
           (Inr r, h') \<Rightarrow> (Inr r, h')
         | (Inl error, h') \<Rightarrow>
             (if \<not> shouldRetry (typedError error) \<or> attempt \<ge> maxAtt - 1
              then (Inl (typedError error), h')
              else (case onRetry attempt h' of
                      (Inl e, h'') \<Rightarrow> (Inl e, h'')
                    | (Inr u, h'') \<Rightarrow>
                        executeWithRetries exec maxAtt shouldRetry onRetry (attempt + 1) h'')))
      else (Inl (ErrorObj ERROR_EXHAUSTED_RETRIES), h))"
  by pat_completeness auto
termination
  by (relation "measure (\<lambda>(exec, maxAtt, sr, onr, attempt, h). nat (maxAtt - attempt))") auto

declare executeWithRetries.simps [simp del]

text \<open>\<^verbatim>\<open>retryPolicy.retryPredicate || (() => true)\<close>.\<close>

definition shouldRetryOf :: "retryPolicy \<Rightarrow> thrown \<Rightarrow> bool" where
  "shouldRetryOf policy = (case retryPredicate policy of Some p \<Rightarrow> p | None \<Rightarrow> (\<lambda>e. True))"

text \<open>The delay the asynchronous node sleeps before the next attempt:
  \<^verbatim>\<open>sleep(calculateBackoff(attempt + 1, retryPolicy.delayMs, retryPolicy.backoff))\<close>.
  Sleeping changes no object, and \<^verbatim>\<open>onRetry\<close> does not throw.\<close>

definition retryDelay :: "retryPolicy \<Rightarrow> int \<Rightarrow> number" where
  "retryDelay policy attempt = calculateBackoff (attempt + 1) (delayMs policy) (backoff policy)"

definition onRetrySleep :: "retryPolicy \<Rightarrow> int \<Rightarrow> heap \<Rightarrow> unit res" where
  "onRetrySleep policy attempt h = (Inr (), h)"

text \<open>
  For the statements about the loops: \<open>retried exec accepts k h hk\<close> says that \<open>k\<close>
  attempts, made one after the other starting in the heap \<open>h\<close>, each threw an error that
  the retry predicate accepts, and that the last of them left the heap \<open>hk\<close>.
\<close>

fun retried :: "(heap \<Rightarrow> val res) \<Rightarrow> (thrown \<Rightarrow> bool) \<Rightarrow> nat \<Rightarrow> heap \<Rightarrow> heap \<Rightarrow> bool" where
  "retried exec accepts 0 h hk = (hk = h)"
| "retried exec accepts (Suc k) h hk =
     (case exec h of
        (Inl e, h') \<Rightarrow> accepts (typedError e) \<and> retried exec accepts k h' hk
      | (Inr r, h') \<Rightarrow> False)"

text \<open>
  The synchronous \<^verbatim>\<open>execute(context)\<close> of a node.  The surrounding
  \<^verbatim>\<open>try { ... } catch (error) { errorMessage(...); throw error }\<close> rethrows what it caught.
  \<^verbatim>\<open>const prepareResult = prepareFn(deepCopy(context));
   const executeResult = !retryPolicy ? executeFn(prepareResult) : (the loop above);
   const outcome = finalizeFn(context, prepareResult, executeResult);
   if (typeof prepareResult === 'object' && prepareResult !== null && 'iterations' in prepareResult)
     updateContextProperty(context, 'iterations', prepareResult.iterations);
   mergeContext(context, prepareResult);
   return context;\<close>
\<close>

definition node_execute :: "node \<Rightarrow> val \<Rightarrow> heap \<Rightarrow> val res" where
  "node_execute n context h =
     andThen (deepCopy context h) (\<lambda>copied h1.
     andThen (prepareFn n copied h1) (\<lambda>prepareResult h2.
     andThen (case retryPolicy n of
                None \<Rightarrow> executeFn n prepareResult h2
              | Some policy \<Rightarrow>
                  retrySync (executeFn n) (retryPredicate policy) (maxAttempts policy) 0 prepareResult h2)
       (\<lambda>executeResult h3.
     andThen (finalizeFn n context prepareResult executeResult h3) (\<lambda>outcome h4.
       let h5 = (if isObject prepareResult \<and> prepareResult \<noteq> Null \<and> hasKey h4 prepareResult ''iterations''
                 then updateContextProperty context ''iterations'' (getV h4 prepareResult ''iterations'') h4
                 else h4)
       in (Inr context, snd (mergeContext context prepareResult h5))))))"

text \<open>
  The asynchronous \<^verbatim>\<open>execute(context)\<close>:
  \<^verbatim>\<open>const prepareResult = await Promise.resolve(prepareFn(context));
   const executeResult = await (!retryPolicy ? executeFn(prepareResult) :
     executeWithRetries(() => executeFn(prepareResult), retryPolicy.maxAttempts,
       retryPolicy.retryPredicate || (() => true), async (attempt) => { await sleep(...); ... }));
   const outcome = await Promise.resolve(finalizeFn(context, prepareResult, executeResult));
   mergeContext(context, prepareResult);
   return context;\<close>
\<close>

definition asyncNode_execute :: "node \<Rightarrow> val \<Rightarrow> heap \<Rightarrow> val res" where
  "asyncNode_execute n context h =
     andThen (prepareFn n context h) (\<lambda>prepareResult h2.
     andThen (case retryPolicy n of
                None \<Rightarrow> executeFn n prepareResult h2
              | Some policy \<Rightarrow>
                  executeWithRetries (executeFn n prepareResult) (maxAttempts policy)
                    (shouldRetryOf policy)
                    (onRetrySleep policy) 0 h2)
       (\<lambda>executeResult h3.
     andThen (finalizeFn n context prepareResult executeResult h3) (\<lambda>outcome h4.
       (Inr context, snd (mergeContext context prepareResult h4)))))"

text \<open>\<^verbatim>\<open>safeExecute(node, context)\<close> awaits an asynchronous node and calls a synchronous
  one; both kinds reach it with a working \<^verbatim>\<open>execute\<close>, and it rethrows what it catches.\<close>

datatype anyNode = SyncNode node | AsyncNode node

fun safeExecute :: "anyNode \<Rightarrow> val \<Rightarrow> heap \<Rightarrow> val res" where
  "safeExecute (SyncNode n) context h = node_execute n context h"
| "safeExecute (AsyncNode n) context h = asyncNode_execute n context h"

subsection \<open>\<^verbatim>\<open>utils.ts\<close>: \<^verbatim>\<open>chunkArray\<close> and \<^verbatim>\<open>executeParallel\<close>\<close>

text \<open>\<^verbatim>\<open>array.slice(start, end)\<close>, negative positions counting from the end.\<close>

definition slice :: "int \<Rightarrow> int \<Rightarrow> 'a list \<Rightarrow> 'a list" where
  "slice start stop xs =
     (let n = int (length xs);
          s = (if start < 0 then max (n + start) 0 else min start n);
          e = (if stop < 0 then max (n + stop) 0 else min stop n)
      in take (nat (e - s)) (drop (nat s) xs))"

text \<open>
  \<^verbatim>\<open>for (let i = 0; i < array.length; i += chunkSize)
     chunks.push(array.slice(i, Math.min(i + chunkSize, array.length)))\<close>
  With a chunk size of zero or less and a non-empty array the loop never ends; the model
  then has no value.
\<close>

partial_function (option) chunkFrom :: "int \<Rightarrow> 'a list \<Rightarrow> int \<Rightarrow> 'a list list \<Rightarrow> 'a list list option" where
  "chunkFrom i array chunkSize chunks =
     (if i < int (length array)
      then chunkFrom (i + chunkSize) array chunkSize
             (chunks @ [slice i (min (i + chunkSize) (int (length array))) array])
      else Some chunks)"

declare chunkFrom.simps [code]

definition chunkArray :: "'a list \<Rightarrow> int \<Rightarrow> 'a list list option" where
  "chunkArray array chunkSize = chunkFrom 0 array chunkSize []"

text \<open>
  \<^verbatim>\<open>Promise.all(items.map(item => processFn(item)))\<close>: every task is started, in order,
  and runs to its end; the result is the list of their values, or the first rejection.
\<close>

fun settleAll :: "('a \<Rightarrow> 's \<Rightarrow> (thrown + 'b) \<times> 's) \<Rightarrow> 'a list \<Rightarrow> 's \<Rightarrow> (thrown + 'b) list \<times> 's" where
  "settleAll f [] s = ([], s)"
| "settleAll f (x # xs) s =
     (case f x s of (r, s1) \<Rightarrow> (case settleAll f xs s1 of (rs, s2) \<Rightarrow> (r # rs, s2)))"

fun gather :: "(thrown + 'b) list \<Rightarrow> thrown + 'b list" where
  "gather [] = Inr []"
| "gather (Inl e # rs) = Inl e"
| "gather (Inr y # rs) = (case gather rs of Inl e \<Rightarrow> Inl e | Inr ys \<Rightarrow> Inr (y # ys))"

definition promiseAll :: "('a \<Rightarrow> 's \<Rightarrow> (thrown + 'b) \<times> 's) \<Rightarrow> 'a list \<Rightarrow> 's \<Rightarrow> (thrown + 'b list) \<times> 's" where
  "promiseAll f xs s = (case settleAll f xs s of (rs, s') \<Rightarrow> (gather rs, s'))"

text \<open>
  \<^verbatim>\<open>executeParallel(items, processFn, concurrency = Infinity)\<close>: one \<^verbatim>\<open>Promise.all\<close> over
  all items when the bound is \<^verbatim>\<open>Infinity\<close>; otherwise over one chunk after the other,
  \<^verbatim>\<open>for (const chunk of chunks) { results.push(...await Promise.all(chunk.map(processFn))) }\<close>.
\<close>

datatype bound = Finite int | Infinity

fun chunksLoop :: "('a \<Rightarrow> 's \<Rightarrow> (thrown + 'b) \<times> 's) \<Rightarrow> 'a list list \<Rightarrow> 'b list \<Rightarrow> 's \<Rightarrow> (thrown + 'b list) \<times> 's" where
  "chunksLoop f [] results s = (Inr results, s)"
| "chunksLoop f (chunk # chunks) results s =
     (case promiseAll f chunk s of
        (Inl e, s') \<Rightarrow> (Inl e, s')
      | (Inr rs, s') \<Rightarrow> chunksLoop f chunks (results @ rs) s')"

definition executeParallel ::
  "'a list \<Rightarrow> ('a \<Rightarrow> 's \<Rightarrow> (thrown + 'b) \<times> 's) \<Rightarrow> bound \<Rightarrow> 's \<Rightarrow> ((thrown + 'b list) \<times> 's) option" where
  "executeParallel items processFn concurrency s =
     (case concurrency of
        Infinity \<Rightarrow> Some (promiseAll processFn items s)
      | Finite c \<Rightarrow>
          (case chunkArray items c of
             None \<Rightarrow> None
           | Some chunks \<Rightarrow> Some (chunksLoop processFn chunks [] s)))"

subsection \<open>\<^verbatim>\<open>core.ts\<close>: fork\<close>

text \<open>\<^verbatim>\<open>nodes.map(f)\<close> for an \<open>f\<close> that may throw: left to right, stopping at the first
  throw.\<close>

fun mapNodes :: "('a \<Rightarrow> heap \<Rightarrow> 'b res) \<Rightarrow> 'a list \<Rightarrow> heap \<Rightarrow> ('b list) res" where
  "mapNodes f [] h = (Inr [], h)"
| "mapNodes f (x # xs) h =
     (case f x h of
        (Inl e, h1) \<Rightarrow> (Inl e, h1)
      | (Inr y, h1) \<Rightarrow>
          (case mapNodes f xs h1 of
             (Inl e, h2) \<Rightarrow> (Inl e, h2)
           | (Inr ys, h2) \<Rightarrow> (Inr (y # ys), h2)))"

text \<open>The object literal \<^verbatim>\<open>{ ...copiedContext }\<close>: a new object with the same property
  values, so a property that refers to an object refers to the same object in the copy.\<close>

definition spreadCopy :: "val \<Rightarrow> heap \<Rightarrow> val \<times> heap" where
  "spreadCopy v h = alloc (propsOf h v) h"

text \<open>
  \<^verbatim>\<open>execute: (context) => {
     const copiedContext = deepCopy(context);
     return nodes.length === 0 ?
       [{ ...copiedContext, outcome: DEFAULT_FORK_OUTCOME }] :
       nodes.map(node => node.execute({ ...copiedContext })); }\<close>
\<close>

definition forkBranch :: "val \<Rightarrow> node \<Rightarrow> heap \<Rightarrow> val res" where
  "forkBranch copiedContext n h =
     (case spreadCopy copiedContext h of (c, h') \<Rightarrow> node_execute n c h')"

definition fork_execute :: "node list \<Rightarrow> val \<Rightarrow> heap \<Rightarrow> (val list) res" where
  "fork_execute nodes context h =
     andThen (deepCopy context h) (\<lambda>copiedContext h1.
       if length nodes = 0
       then (case alloc (setProp ''outcome'' (Str DEFAULT_FORK_OUTCOME) (propsOf h1 copiedContext)) h1 of
               (c, h2) \<Rightarrow> (Inr [c], h2))
       else mapNodes (forkBranch copiedContext) nodes h1)"

text \<open>
  The asynchronous fork:
  \<^verbatim>\<open>nodes.length === 0 ? [{ ...copiedContext, outcome: DEFAULT_FORK_OUTCOME }] :
     executeParallel(nodes, async (node) => safeExecute(node, { ...copiedContext }))\<close>
\<close>

definition asyncForkBranch :: "val \<Rightarrow> anyNode \<Rightarrow> heap \<Rightarrow> val res" where
  "asyncForkBranch copiedContext n h =
     (case spreadCopy copiedContext h of (c, h') \<Rightarrow> safeExecute n c h')"

definition asyncFork_execute :: "anyNode list \<Rightarrow> val \<Rightarrow> heap \<Rightarrow> ((val list) res) option" where
  "asyncFork_execute nodes context h =
     (case deepCopy context h of
        (Inl e, h1) \<Rightarrow> Some (Inl e, h1)
      | (Inr copiedContext, h1) \<Rightarrow>
          if length nodes = 0
          then (case alloc (setProp ''outcome'' (Str DEFAULT_FORK_OUTCOME) (propsOf h1 copiedContext)) h1 of
                  (c, h2) \<Rightarrow> Some (Inr [c], h2))
          else executeParallel nodes (asyncForkBranch copiedContext) Infinity h1)"

subsection \<open>\<^verbatim>\<open>core.ts\<close>: batch processors\<close>

text \<open>
  \<^verbatim>\<open>getResultKey(item, result?)\<close>: the first truthy of \<^verbatim>\<open>result.key\<close>, \<^verbatim>\<open>result.id\<close>,
  \<^verbatim>\<open>result.item.id\<close>; else the first truthy of \<^verbatim>\<open>item.id\<close>, \<^verbatim>\<open>item.key\<close>; else
  \<^verbatim>\<open>Math.random().toString(36).substring(2, 11)\<close>.  The random strings are a parameter
  \<open>rnd\<close>: \<open>rnd n\<close> is the \<open>n\<close>-th one drawn, and the function returns how many have been
  drawn.  A call without \<^verbatim>\<open>result\<close> passes \<open>Undefined\<close>.
\<close>

definition resultKeyOf :: "heap \<Rightarrow> val \<Rightarrow> val" where
  "resultKeyOf h r =
     orElse (orElse (getFromContext h r ''key'' Undefined) (getFromContext h r ''id'' Undefined))
       (if truthy r \<and> hasKey h r ''item'' \<and> truthy (getV h r ''item'') \<and> isObject (getV h r ''item'')
        then getFromContext h (getV h r ''item'') ''id'' Undefined else Undefined)"

definition itemKeyOf :: "heap \<Rightarrow> val \<Rightarrow> val" where
  "itemKeyOf h item =
     orElse (getFromContext h item ''id'' Undefined) (getFromContext h item ''key'' Undefined)"

definition getResultKey :: "(nat \<Rightarrow> string) \<Rightarrow> val \<Rightarrow> val \<Rightarrow> heap \<times> nat \<Rightarrow> string \<times> nat" where
  "getResultKey rnd item r hn =
     (if truthy r \<and> isObject r \<and> truthy (resultKeyOf (fst hn) r)
      then (toString (resultKeyOf (fst hn) r), snd hn)
      else if truthy item \<and> isObject item \<and> truthy (itemKeyOf (fst hn) item)
      then (toString (itemKeyOf (fst hn) item), snd hn)
      else (rnd (snd hn), Suc (snd hn)))"

text \<open>The failure marker
  \<^verbatim>\<open>{ processed: false, error: error instanceof Error ? error.message : String(error) }\<close>.\<close>

definition failureMarker :: "thrown \<Rightarrow> props" where
  "failureMarker e = [(''processed'', Bool False), (''error'', Str (messageOf e))]"

text \<open>
  What processing one item leaves behind: the key and the value that are stored for it,
  whether the value is a failure marker, and how often \<^verbatim>\<open>processor.execute\<close> was called.
\<close>

record entry =
  key :: string
  stored :: val
  failed :: bool
  calls :: nat

text \<open>The \<^verbatim>\<open>catch\<close> block of both processors:
  \<^verbatim>\<open>results[getResultKey(item)] = { processed: false, error: ... }\<close>.\<close>

definition itemFailed :: "(nat \<Rightarrow> string) \<Rightarrow> val \<Rightarrow> thrown \<Rightarrow> nat \<Rightarrow> heap \<times> nat \<Rightarrow> entry \<times> heap \<times> nat" where
  "itemFailed rnd item e c hn =
     (case getResultKey rnd item Undefined hn of (k, n') \<Rightarrow>
        (case alloc (failureMarker e) (fst hn) of (m, h') \<Rightarrow>
           (\<lparr> key = k, stored = m, failed = True, calls = c \<rparr>, h', n')))"

text \<open>
  One item of the synchronous processor:
  \<^verbatim>\<open>try { results[getResultKey(item, processor.execute(item))] = processor.execute(item); }
   catch (error) { ...; results[getResultKey(item)] = { processed: false, error: ... }; }\<close>
  The key expression is evaluated before the right-hand side.
\<close>

definition syncItem :: "node \<Rightarrow> (nat \<Rightarrow> string) \<Rightarrow> val \<Rightarrow> heap \<times> nat \<Rightarrow> entry \<times> heap \<times> nat" where
  "syncItem processor rnd item hn =
     (case node_execute processor item (fst hn) of
        (Inl e, h1) \<Rightarrow> itemFailed rnd item e 1 (h1, snd hn)
      | (Inr r1, h1) \<Rightarrow>
          (case getResultKey rnd item r1 (h1, snd hn) of (k, n1) \<Rightarrow>
             (case node_execute processor item h1 of
                (Inl e, h2) \<Rightarrow> itemFailed rnd item e 2 (h2, n1)
              | (Inr r2, h2) \<Rightarrow> (\<lparr> key = k, stored = r2, failed = False, calls = 2 \<rparr>, h2, n1))))"

text \<open>The state of the loop over the items: the local object \<^verbatim>\<open>results\<close>, the heap, the
  number of random strings drawn, and the entries so far, one per item.\<close>

record batchState =
  results :: props
  store :: heap
  drawn :: nat
  entries :: "entry list"

definition syncStep :: "node \<Rightarrow> (nat \<Rightarrow> string) \<Rightarrow> batchState \<Rightarrow> val \<Rightarrow> batchState" where
  "syncStep processor rnd s item =
     (case syncItem processor rnd item (store s, drawn s) of (e, h', n') \<Rightarrow>
        \<lparr> results = setProp (key e) (stored e) (results s), store = h', drawn = n',
          entries = entries s @ [e] \<rparr>)"

text \<open>
  The synchronous \<^verbatim>\<open>execute(context)\<close>:
  \<^verbatim>\<open>const items = itemsSelector(context);
   const results = {};
   chunkArray(items, Math.min(items.length, 100)).forEach(chunk => chunk.forEach(item => ...));
   return resultsCollector(context, Object.values(results));\<close>
  \<open>batch_run\<close> is the loop, \<open>batch_execute\<close> the whole call.  The selector and the
  collector are the caller's.
\<close>

definition batch_run :: "node \<Rightarrow> (nat \<Rightarrow> string) \<Rightarrow> val list \<Rightarrow> heap \<times> nat \<Rightarrow> batchState option" where
  "batch_run processor rnd items hn =
     (case chunkArray items (min (int (length items)) 100) of
        None \<Rightarrow> None
      | Some chunks \<Rightarrow>
          Some (foldl (\<lambda>s chunk. foldl (syncStep processor rnd) s chunk)
                  \<lparr> results = [], store = fst hn, drawn = snd hn, entries = [] \<rparr> chunks))"



text \<open>
  The asynchronous \<^verbatim>\<open>execute(context)\<close>:
  \<^verbatim>\<open>const items = itemsSelector(context);
   try {
     const keyedResults = await executeParallel(items, async (item) => {...}, concurrency);
     return resultsCollector(context, Object.values(
       keyedResults.reduce((acc, {key, result}) => setInContext(acc, key, result), {})));
   } catch (error) { ...; throw error; }\<close>
  The accumulator of the \<^verbatim>\<open>reduce\<close> is local; its objects are not put on the heap.
\<close>

definition keyed :: "entry list \<Rightarrow> props" where
  "keyed es = foldl (\<lambda>acc e. setProp (key e) (stored e) acc) [] es"


subsection \<open>\<^verbatim>\<open>core.ts\<close>: join\<close>

text \<open>\<^verbatim>\<open>compose(...fns) = (arg) => fns.reduceRight((result, fn) => fn(result), arg)\<close>:
  the last function is applied first.  \<^verbatim>\<open>pipe\<close> is the same with \<^verbatim>\<open>reduce\<close>.\<close>

definition compose :: "('a \<Rightarrow> heap \<Rightarrow> 'a \<times> heap) list \<Rightarrow> 'a \<Rightarrow> heap \<Rightarrow> 'a \<times> heap" where
  "compose fns arg h = foldr (\<lambda>fn rh. fn (fst rh) (snd rh)) fns (arg, h)"

definition pipe :: "('a \<Rightarrow> heap \<Rightarrow> 'a \<times> heap) list \<Rightarrow> 'a \<Rightarrow> heap \<Rightarrow> 'a \<times> heap" where
  "pipe fns arg h = foldl (\<lambda>rh fn. fn (fst rh) (snd rh)) (arg, h) fns"

text \<open>The object literal \<^verbatim>\<open>{ ...acc, ...ctx }\<close>: the properties of \<open>acc\<close>, then those of
  \<open>ctx\<close> written over them.\<close>

definition spread2 :: "val \<Rightarrow> val \<Rightarrow> heap \<Rightarrow> val \<times> heap" where
  "spread2 acc ctx h =
     alloc (foldl (\<lambda>ps kv. setProp (fst kv) (snd kv) ps) (propsOf h acc) (propsOf h ctx)) h"

text \<open>
  The default join function of \<^verbatim>\<open>createJoin\<close>:
  \<^verbatim>\<open>const result = { ...compose(...contexts.map(ctx => (acc) => ({ ...acc, ...ctx })))({}) };
   result['outcome'] = DEFAULT_JOIN_OUTCOME;
   return result;\<close>
\<close>

definition stampJoined :: "val \<times> heap \<Rightarrow> val res" where
  "stampJoined mh =
     (case spreadCopy (fst mh) (snd mh) of (r, h') \<Rightarrow>
        (Inr r, assign r ''outcome'' (Str DEFAULT_JOIN_OUTCOME) h'))"

definition defaultJoinFn :: "val list \<Rightarrow> heap \<Rightarrow> val res" where
  "defaultJoinFn contexts h =
     (case alloc [] h of (blank, h0) \<Rightarrow>
        stampJoined (compose (map (\<lambda>ctx acc. spread2 acc ctx) contexts) blank h0))"

text \<open>
  The default join function of \<^verbatim>\<open>createAsyncJoin\<close>:
  \<^verbatim>\<open>const result = { ...contexts.reduce((merged, ctx) => ({ ...merged, ...ctx }), {}) };
   result['outcome'] = DEFAULT_JOIN_OUTCOME;
   return result;\<close>
\<close>

definition defaultAsyncJoinFn :: "val list \<Rightarrow> heap \<Rightarrow> val res" where
  "defaultAsyncJoinFn contexts h =
     (case alloc [] h of (blank, h0) \<Rightarrow>
        stampJoined (foldl (\<lambda>mh ctx. spread2 (fst mh) ctx (snd mh)) (blank, h0) contexts))"

text \<open>
  \<^verbatim>\<open>const createJoin = () => {
     let joinFn = (contexts) => {...default...};
     return {
       execute: (contexts) => { log(...); return joinFn(contexts); },
       withJoinFn: (fn) => { joinFn = fn;
         return { execute: (contexts) => joinFn(contexts),
                  withJoinFn: (newFn) => createJoin().withJoinFn(newFn) }; } }; }\<close>
  Each call of \<^verbatim>\<open>createJoin\<close> makes one variable \<^verbatim>\<open>joinFn\<close>, which the closures of the
  returned object read and write.  The variables are the cells of a list; a join object is
  the position of its variable, and whether it is the object \<^verbatim>\<open>withJoinFn\<close> returned.
  \<^verbatim>\<open>createAsyncJoin\<close> has the same shape, with its own default.
\<close>

type_synonym joinFn = "val list \<Rightarrow> heap \<Rightarrow> val res"

datatype join = Join nat | JoinWith nat

fun joinCell :: "join \<Rightarrow> nat" where
  "joinCell (Join c) = c"
| "joinCell (JoinWith c) = c"

definition createJoin :: "joinFn list \<Rightarrow> join \<times> joinFn list" where
  "createJoin cells = (Join (length cells), cells @ [defaultJoinFn])"

definition createAsyncJoin :: "joinFn list \<Rightarrow> join \<times> joinFn list" where
  "createAsyncJoin cells = (Join (length cells), cells @ [defaultAsyncJoinFn])"

text \<open>Both \<^verbatim>\<open>execute\<close> closures call whatever \<^verbatim>\<open>joinFn\<close> holds when they run.\<close>

definition join_execute :: "join \<Rightarrow> joinFn list \<Rightarrow> val list \<Rightarrow> heap \<Rightarrow> val res" where
  "join_execute j cells contexts h = (cells ! joinCell j) contexts h"

fun withJoinFn :: "join \<Rightarrow> joinFn \<Rightarrow> joinFn list \<Rightarrow> join \<times> joinFn list" where
  "withJoinFn (Join c) fn cells = (JoinWith c, cells[c := fn])"
| "withJoinFn (JoinWith c) newFn cells =
     (JoinWith (length cells), (cells @ [defaultJoinFn])[length cells := newFn])"

fun asyncWithJoinFn :: "join \<Rightarrow> joinFn \<Rightarrow> joinFn list \<Rightarrow> join \<times> joinFn list" where
  "asyncWithJoinFn (Join c) fn cells = (JoinWith c, cells[c := fn])"
| "asyncWithJoinFn (JoinWith c) newFn cells =
     (JoinWith (length cells), (cells @ [defaultAsyncJoinFn])[length cells := newFn])"

subsection \<open>\<^verbatim>\<open>core.ts\<close>: when\<close>

text \<open>
  \<^verbatim>\<open>const createWhen = (condition, targetNode) => {
     let conditionFn = (context) => getFromContext(context, 'outcome', undefined) === condition;
     return {
       execute: (context) => { if (conditionFn(context)) return targetNode.execute(context);
                               return context; },
       withCondition: (fn) => { conditionFn = fn;
         return { execute: (context) => fn(context) ? targetNode.execute(context) : context,
                  withCondition: (newFn) => createWhen(condition, targetNode).withCondition(newFn) }; } }; }\<close>
  The variable \<^verbatim>\<open>conditionFn\<close> is a cell as above.  The object returned by
  \<^verbatim>\<open>withCondition\<close> calls its argument \<^verbatim>\<open>fn\<close> directly.  On a context that is not an
  object the \<^verbatim>\<open>in\<close> of \<open>getFromContext\<close> throws a \<^verbatim>\<open>TypeError\<close>.
\<close>

type_synonym conditionFn = "val \<Rightarrow> heap \<Rightarrow> bool res"

definition defaultCondition :: "string \<Rightarrow> conditionFn" where
  "defaultCondition condition context h =
     (case context of
        Ref a \<Rightarrow> (Inr (getFromContext h context ''outcome'' Undefined = Str condition), h)
      | _ \<Rightarrow> (Inl (ErrorObj ''TypeError: Cannot use in operator to search for outcome''), h))"

datatype whenNode = When nat string node | WhenWith conditionFn string node

definition createWhen :: "string \<Rightarrow> node \<Rightarrow> conditionFn list \<Rightarrow> whenNode \<times> conditionFn list" where
  "createWhen condition targetNode cells =
     (When (length cells) condition targetNode, cells @ [defaultCondition condition])"

definition runWhen :: "conditionFn \<Rightarrow> node \<Rightarrow> val \<Rightarrow> heap \<Rightarrow> val res" where
  "runWhen fn targetNode context h =
     andThen (fn context h) (\<lambda>b h1. if b then node_execute targetNode context h1 else (Inr context, h1))"

fun when_execute :: "whenNode \<Rightarrow> conditionFn list \<Rightarrow> val \<Rightarrow> heap \<Rightarrow> val res" where
  "when_execute (When c condition targetNode) cells context h = runWhen (cells ! c) targetNode context h"
| "when_execute (WhenWith fn condition targetNode) cells context h = runWhen fn targetNode context h"

fun withCondition :: "whenNode \<Rightarrow> conditionFn \<Rightarrow> conditionFn list \<Rightarrow> whenNode \<times> conditionFn list" where
  "withCondition (When c condition targetNode) fn cells =
     (WhenWith fn condition targetNode, cells[c := fn])"
| "withCondition (WhenWith f condition targetNode) newFn cells =
     (WhenWith newFn condition targetNode,
      (cells @ [defaultCondition condition])[length cells := newFn])"

subsection \<open>Example nodes and functions\<close>

text \<open>User code for the concrete runs below.
  \<^verbatim>\<open>prepFoo = (ctx) => ({ foo: 1 })\<close>;
  \<^verbatim>\<open>touch = (ctx) => { ctx.touched = true; return ctx }\<close>;
  \<^verbatim>\<open>bumpNested = (ctx) => { ctx.data.x = 99; return 'done' }\<close>;
  \<^verbatim>\<open>alwaysBoom = () => { throw new Error('boom') }\<close>;
  \<^verbatim>\<open>pickNull = (contexts) => null\<close>; \<^verbatim>\<open>never = (ctx) => false\<close>;
  \<^verbatim>\<open>setDone = (ctx) => { ctx.done = true; return 'done' }\<close>.\<close>

definition prepFoo :: "val \<Rightarrow> heap \<Rightarrow> val res" where
  "prepFoo ctx h = (case alloc [(''foo'', Num 1)] h of (r, h') \<Rightarrow> (Inr r, h'))"

definition touch :: "val \<Rightarrow> heap \<Rightarrow> val res" where
  "touch ctx h = (Inr ctx, assign ctx ''touched'' (Bool True) h)"

definition bumpNested :: "val \<Rightarrow> val \<Rightarrow> val \<Rightarrow> heap \<Rightarrow> string res" where
  "bumpNested ctx p e h = (Inr ''done'', assign (getV h ctx ''data'') ''x'' (Num 99) h)"

definition alwaysBoom :: "val \<Rightarrow> heap \<Rightarrow> val res" where
  "alwaysBoom p h = (Inl (ErrorObj ''boom''), h)"

definition pickNull :: joinFn where
  "pickNull contexts h = (Inr Null, h)"

definition never :: conditionFn where
  "never ctx h = (Inr False, h)"

definition setDone :: "val \<Rightarrow> val \<Rightarrow> val \<Rightarrow> heap \<Rightarrow> string res" where
  "setDone ctx p e h = (Inr ''done'', assign ctx ''done'' (Bool True) h)"

text \<open>An execute that counts its calls in its argument and reports the count:
  \<^verbatim>\<open>countAndFail = (p) => { p.count = p.count + 1; throw new Error('fail' + p.count) }\<close>;
  \<^verbatim>\<open>failTwice = (p) => { p.count = p.count + 1;
     if (p.count < 3) throw new Error('fail' + p.count); return p.count }\<close>,
  for an argument whose \<^verbatim>\<open>count\<close> is a number.\<close>

definition countAndFail :: "val \<Rightarrow> heap \<Rightarrow> val res" where
  "countAndFail p h =
     (case getV h p ''count'' of
        Num i \<Rightarrow> (Inl (ErrorObj (''fail'' @ toString (Num (i + 1)))), assign p ''count'' (Num (i + 1)) h)
      | v \<Rightarrow> (Inl (ErrorObj ''failNaN''), h))"

definition failTwice :: "val \<Rightarrow> heap \<Rightarrow> val res" where
  "failTwice p h =
     (case getV h p ''count'' of
        Num i \<Rightarrow> (if i + 1 < 3 then Inl (ErrorObj (''fail'' @ toString (Num (i + 1)))) else Inr (Num (i + 1)),
                  assign p ''count'' (Num (i + 1)) h)
      | v \<Rightarrow> (Inr v, h))"

text \<open>Four retry policies: two and three attempts with the default predicate, no attempt at
  all, and three attempts with a predicate that rejects every error.\<close>

definition thrice :: retryPolicy where
  "thrice = \<lparr> maxAttempts = 3, delayMs = Fin 10, backoff = ''linear'', retryPredicate = None \<rparr>"

definition twice :: retryPolicy where
  "twice = \<lparr> maxAttempts = 2, delayMs = Fin 10, backoff = ''linear'', retryPredicate = None \<rparr>"

definition noAttempt :: retryPolicy where
  "noAttempt = \<lparr> maxAttempts = 0, delayMs = Fin 10, backoff = ''linear'', retryPredicate = None \<rparr>"

definition rejecting :: retryPolicy where
  "rejecting = \<lparr> maxAttempts = 3, delayMs = Fin 10, backoff = ''linear'', retryPredicate = Some (\<lambda>e. False) \<rparr>"




definition bumpId :: "val \<Rightarrow> val \<Rightarrow> val \<Rightarrow> heap \<Rightarrow> string res" where
  "bumpId ctx p e h =
     (Inr ''done'', assign ctx ''id'' (case getV h ctx ''id'' of Num i \<Rightarrow> Num (i + 1) | v \<Rightarrow> v) h)"

definition batchHeap :: heap where
  "batchHeap = [[], [(''id'', Str ''a'')], [(''id'', Str ''b'')],
                [(''id'', Str ''c''), (''fail'', Bool True)], [(''id'', Str ''d'')],
                [(''id'', Str ''e''), (''fail'', Bool True)]]"

definition noRandom :: "nat \<Rightarrow> string" where
  "noRandom n = ''r'' @ showNat n"

section \<open>Theorems\<close>

subsection \<open>C7: backoff formulas\<close>

text \<open>Integers up to \<open>2^53\<close> in magnitude, and the powers of two up to \<open>2^1023\<close>, are
  doubles: rounding leaves them as they are.\<close>

lemma roundEven_int: "roundEven (of_int k) = k"
  by (simp add: roundEven_def)

lemma exponentOf_int: "z \<noteq> 0 \<Longrightarrow> exponentOf (of_int z) = bitlen \<bar>z\<bar> - 1"
proof -
  assume "z \<noteq> 0"
  then have "1 \<le> \<bar>z\<bar>" by simp
  then have "(of_int 1 :: rat) \<le> of_int \<bar>z\<bar>" by (simp only: of_int_le_iff)
  then have "(1::rat) \<le> \<bar>of_int z\<bar>" by simp
  moreover have "\<lfloor>\<bar>(of_int z :: rat)\<bar>\<rfloor> = \<bar>z\<bar>"
    by (metis floor_of_int of_int_abs)
  ultimately show ?thesis by (simp add: exponentOf_def)
qed

lemma bitlen_small: "0 < z \<Longrightarrow> z \<le> 2 ^ 53 \<Longrightarrow> 1 \<le> bitlen z \<and> bitlen z \<le> 54"
proof -
  assume p: "0 < z" and le: "z \<le> 2 ^ 53"
  from bitlen_bounds [OF p] have lo: "2 ^ nat (bitlen z - 1) \<le> z" by simp
  from p have b1: "1 \<le> bitlen z" by (simp add: bitlen_alt_def)
  have "bitlen z \<le> 54"
  proof (rule ccontr)
    assume "\<not> bitlen z \<le> 54"
    then have "54 \<le> nat (bitlen z - 1)" by simp
    then have "(2::int) ^ 54 \<le> 2 ^ nat (bitlen z - 1)" by (rule power_increasing) simp
    with lo le show False by simp
  qed
  with b1 show ?thesis by simp
qed

lemma fl_int:
  assumes "\<bar>z\<bar> \<le> 2 ^ 53"
  shows "fl (of_int z) = Fin (of_int z)"
proof (cases "z = 0")
  case True
  then show ?thesis by (simp add: fl_def)
next
  case False
  then have pos: "0 < \<bar>z\<bar>" by simp
  from bitlen_small [OF pos assms] have b: "1 \<le> bitlen \<bar>z\<bar>" "bitlen \<bar>z\<bar> \<le> 54" by simp_all
  let ?e = "bitlen \<bar>z\<bar> - 1"
  let ?q = "?e - 52"
  from False have ex: "exponentOf (of_int z) = ?e" by (rule exponentOf_int)
  from b have q: "max (?e - 52) (- 1074) = ?q" by simp
  have small: "\<not> (2::rat) ^ 1024 \<le> \<bar>of_int z\<bar>"
  proof -
    from assms have "\<bar>(of_int z :: rat)\<bar> \<le> 2 ^ 53"
      by (metis of_int_abs of_int_le_iff of_int_numeral of_int_power)
    then show ?thesis by simp
  qed
  have y: "of_int (roundEven (of_int z / 2 powi ?q)) * 2 powi ?q = (of_int z :: rat)"
  proof (cases "?q \<le> 0")
    case True
    define k where "k = nat (- ?q)"
    with True have qk: "?q = - int k" by simp
    have p2: "(2::rat) powi ?q = inverse (2 ^ k)"
      unfolding qk by (simp add: power_int_minus)
    have "(of_int z :: rat) / 2 powi ?q = of_int (z * 2 ^ k)"
      unfolding p2 by (simp add: field_simps)
    then have "roundEven (of_int z / 2 powi ?q) = z * 2 ^ k"
      by (simp only: roundEven_int)
    then show ?thesis unfolding p2 by (simp add: field_simps)
  next
    case F: False
    with b have e53: "bitlen \<bar>z\<bar> = 54" by simp
    from bitlen_bounds [OF pos] e53 have "2 ^ 53 \<le> \<bar>z\<bar>" by simp
    with assms have "\<bar>z\<bar> = 2 ^ 53" by simp
    then have zz: "z = 2 ^ 53 \<or> z = - (2 ^ 53)" by (simp add: abs_if split: if_splits)
    have q1: "?q = 1" using e53 by simp
    have "(of_int z :: rat) / 2 = of_int (z div 2)" using zz by auto
    then have "roundEven (of_int z / 2 powi ?q) = z div 2"
      by (simp only: q1 power_int_1_right roundEven_int)
    then show ?thesis using zz q1 by auto
  qed
  show ?thesis using False ex q y small by (simp add: fl_def Let_def)
qed

text \<open>Rounding, step by step, for the evaluation of \<open>fl\<close> at a given value.\<close>

lemma fl_eval:
  assumes "x \<noteq> 0" "exponentOf x = e" "max (e - 52) (- 1074) = q" "2 powi q = s"
    "roundEven (x / s) = m" "of_int m * s = y" "\<bar>y\<bar> < 2 ^ 1024"
  shows "fl x = Fin y"
proof -
  from assms(7) have "\<not> 2 ^ 1024 \<le> \<bar>y\<bar>" by (simp only: not_le)
  with assms(1-6) show ?thesis unfolding fl_def Let_def by simp
qed

lemma ofInt_exact: "\<bar>n\<bar> \<le> 2 ^ 53 \<Longrightarrow> ofInt n = Fin (of_int n)"
  by (simp add: ofInt_def fl_int)

lemma pow2_exact:
  assumes "0 \<le> k" "k \<le> 1023"
  shows "pow2 k = Fin (2 ^ nat k)"
proof -
  define m where "m = nat k"
  with assms have km: "k = int m" and m: "m \<le> 1023" by simp_all
  have x: "(2::rat) powi k = of_int (2 ^ m)" unfolding km by simp
  have "bitlen (1 * 2 ^ m) = bitlen 1 + int m" by (rule bitlen_pow2) simp
  moreover have "bitlen 1 = 1" by (simp add: bitlen_alt_def)
  ultimately have bl: "bitlen \<bar>2 ^ m\<bar> = int m + 1" by simp
  have ex: "exponentOf (of_int (2 ^ m)) = int m"
    using exponentOf_int [of "2 ^ m"] bl by simp
  have q: "max (int m - 52) (- 1074) = int m - 52" by simp
  have sp: "(2::rat) powi (int m - 52) * 2 ^ 52 = 2 ^ m"
  proof -
    have "(2::rat) powi (int m - 52) * 2 powi 52 = 2 powi (int m - 52 + 52)"
      by (subst power_int_add) simp_all
    then show ?thesis by simp
  qed
  have d: "(of_int (2 ^ m) :: rat) / 2 powi (int m - 52) = of_int (2 ^ 52)"
    using sp by (simp add: field_simps)
  have r: "roundEven (of_int (2 ^ m) / 2 powi (int m - 52)) = 2 ^ 52"
    unfolding d by (rule roundEven_int)
  have y: "of_int (roundEven (of_int (2 ^ m) / 2 powi (int m - 52))) * 2 powi (int m - 52) = (2::rat) ^ m"
    unfolding r using sp by (simp add: mult.commute)
  have lt: "(2::rat) ^ m < 2 ^ 1024"
    by (rule power_strict_increasing) (use m in simp_all)
  have ab: "\<bar>(2::rat) ^ m\<bar> = 2 ^ m" by simp
  have small: "\<not> (2::rat) ^ 1024 \<le> \<bar>2 ^ m\<bar>"
    unfolding ab using lt by (simp only: not_le)
  have nz: "(of_int (2 ^ m) :: rat) \<noteq> 0" by simp
  show ?thesis
    unfolding pow2_def x fl_def Let_def ex q y using nz small km by simp
qed

text \<open>
  C7 as the claim states it: for every attempt number \<open>n\<close> and base delay \<open>d\<close> the linear
  delay equals \<open>d * n\<close>.  The code multiplies doubles, and the product of two doubles is
  the double nearest to the exact product: for \<open>d = 2^53 - 1\<close> and \<open>n = 3\<close> the code
  returns 27021597764222972, and \<open>d * n\<close> is 27021597764222973.
\<close>

theorem calculateBackoff_rounds_counterexample:
  "calculateBackoff 3 (Fin 9007199254740991) ''linear'' = Fin 27021597764222972
   \<and> Fin 27021597764222972 \<noteq> Fin (9007199254740991 * 3)"
proof -
  have o: "ofInt 3 = Fin 3" using ofInt_exact [of 3] by simp
  have f: "fl 27021597764222973 = Fin 27021597764222972"
  proof (rule fl_eval)
    show "exponentOf 27021597764222973 = 54" by code_simp
    show "max (54 - 52) (- 1074) = (2 :: int)" by simp
    show "(2::rat) powi 2 = 4" by simp
    show "roundEven (27021597764222973 / 4) = 6755399441055743" by code_simp
    show "of_int 6755399441055743 * 4 = (27021597764222972 :: rat)" by simp
  qed simp_all
  show ?thesis by (simp add: calculateBackoff_def o f)
qed

text \<open>
  C7, amended.  For every attempt number \<open>n \<ge> 1\<close> and finite base delay \<open>x\<close>:
  \<^item> under the fixed strategy (and any strategy that is neither \<^verbatim>\<open>linear\<close> nor
    \<^verbatim>\<open>exponential\<close>) the delay is the base delay;
  \<^item> under the linear strategy, for \<open>n \<le> 2^53\<close>, the delay is the double nearest to
    \<open>x * n\<close>; under the exponential strategy, for \<open>n \<le> 1024\<close>, it is the double nearest
    to \<open>x * 2^(n-1)\<close>;
  \<^item> when the base delay is an integer \<open>i\<close> and the exact value \<open>i * n\<close>, respectively
    \<open>i * 2^(n-1)\<close>, is at most \<open>2^53\<close> in magnitude, the delay is exactly that value;
  \<^item> in particular linear(3, 10) = 30, exponential(3, 10) = 40 and fixed(n, 10) = 10
    for every \<open>n\<close>.
\<close>

theorem calculateBackoff_formulas:
  "calculateBackoff n d ''fixed'' = d
   \<and> (1 \<le> n \<and> n \<le> 2 ^ 53 \<longrightarrow> calculateBackoff n (Fin x) ''linear'' = fl (x * of_int n))
   \<and> (1 \<le> n \<and> n \<le> 1024 \<longrightarrow> calculateBackoff n (Fin x) ''exponential'' = fl (x * 2 ^ nat (n - 1)))
   \<and> (1 \<le> n \<and> n \<le> 2 ^ 53 \<and> \<bar>i * n\<bar> \<le> 2 ^ 53 \<longrightarrow>
        calculateBackoff n (Fin (of_int i)) ''linear'' = Fin (of_int (i * n)))
   \<and> (1 \<le> n \<and> n \<le> 1024 \<and> \<bar>i * 2 ^ nat (n - 1)\<bar> \<le> 2 ^ 53 \<longrightarrow>
        calculateBackoff n (Fin (of_int i)) ''exponential'' = Fin (of_int (i * 2 ^ nat (n - 1))))
   \<and> calculateBackoff 3 (Fin 10) ''linear'' = Fin 30
   \<and> calculateBackoff 3 (Fin 10) ''exponential'' = Fin 40
   \<and> calculateBackoff n (Fin 10) ''fixed'' = Fin 10"
proof (intro conjI impI)
  show "calculateBackoff n d ''fixed'' = d" by (simp add: calculateBackoff_def)
  show "calculateBackoff n (Fin 10) ''fixed'' = Fin 10" by (simp add: calculateBackoff_def)
next
  assume a: "1 \<le> n \<and> n \<le> 2 ^ 53"
  then have "\<bar>n\<bar> \<le> 2 ^ 53" by simp
  then show "calculateBackoff n (Fin x) ''linear'' = fl (x * of_int n)"
    by (simp add: calculateBackoff_def ofInt_exact)
next
  assume a: "1 \<le> n \<and> n \<le> 1024"
  then have "pow2 (n - 1) = Fin (2 ^ nat (n - 1))" by (intro pow2_exact) simp_all
  then show "calculateBackoff n (Fin x) ''exponential'' = fl (x * 2 ^ nat (n - 1))"
    by (simp add: calculateBackoff_def)
next
  assume a: "1 \<le> n \<and> n \<le> 2 ^ 53 \<and> \<bar>i * n\<bar> \<le> 2 ^ 53"
  then have "\<bar>n\<bar> \<le> 2 ^ 53" by simp
  then have "calculateBackoff n (Fin (of_int i)) ''linear'' = fl (of_int (i * n))"
    by (simp add: calculateBackoff_def ofInt_exact)
  also from a have "\<dots> = Fin (of_int (i * n))" by (intro fl_int) simp
  finally show "calculateBackoff n (Fin (of_int i)) ''linear'' = Fin (of_int (i * n))" .
next
  assume a: "1 \<le> n \<and> n \<le> 1024 \<and> \<bar>i * 2 ^ nat (n - 1)\<bar> \<le> 2 ^ 53"
  then have "pow2 (n - 1) = Fin (2 ^ nat (n - 1))" by (intro pow2_exact) simp_all
  then have "calculateBackoff n (Fin (of_int i)) ''exponential'' = fl (of_int (i * 2 ^ nat (n - 1)))"
    by (simp add: calculateBackoff_def)
  also from a have "\<dots> = Fin (of_int (i * 2 ^ nat (n - 1)))" by (intro fl_int) simp
  finally show "calculateBackoff n (Fin (of_int i)) ''exponential'' = Fin (of_int (i * 2 ^ nat (n - 1)))" .
next
  have "calculateBackoff 3 (Fin (of_int 10)) ''linear'' = fl (of_int (10 * 3))"
    by (simp add: calculateBackoff_def ofInt_exact)
  also have "\<dots> = Fin (of_int (10 * 3))" by (intro fl_int) simp
  finally show "calculateBackoff 3 (Fin 10) ''linear'' = Fin 30" by simp
next
  have "pow2 (3 - 1) = Fin (2 ^ nat (3 - 1))" by (intro pow2_exact) simp_all
  then have "calculateBackoff 3 (Fin (of_int 10)) ''exponential'' = fl (of_int (10 * 4))"
    by (simp add: calculateBackoff_def)
  also have "\<dots> = Fin (of_int (10 * 4))" by (intro fl_int) simp
  finally show "calculateBackoff 3 (Fin 10) ''exponential'' = Fin 40" by simp
qed

text \<open>At attempt 3: the base delay 0.1 (the double \<open>3602879701896397 / 2^55\<close>) gives the
  linear delay 0.30000000000000004 (the double \<open>1351079888211149 / 2^52\<close>) and the
  exponential delay 0.4; the base delay 10 gives 30 and 40.\<close>

theorem calculateBackoff_formulas_witness:
  "calculateBackoff 3 (Fin 10) ''fixed'' = Fin 10
   \<and> calculateBackoff 3 (Fin (3602879701896397 / 36028797018963968)) ''linear''
       = Fin (1351079888211149 / 4503599627370496)
   \<and> calculateBackoff 3 (Fin (3602879701896397 / 36028797018963968)) ''exponential''
       = Fin (3602879701896397 / 9007199254740992)
   \<and> calculateBackoff 3 (Fin (of_int 10)) ''linear'' = Fin (of_int (10 * 3))
   \<and> calculateBackoff 3 (Fin (of_int 10)) ''exponential'' = Fin (of_int (10 * 2 ^ nat (3 - 1)))"
proof -
  let ?x = "3602879701896397 / 36028797018963968 :: rat"
  have f1: "fl (?x * of_int 3) = Fin (1351079888211149 / 4503599627370496)"
  proof (rule fl_eval)
    show "exponentOf (?x * of_int 3) = - 2" by code_simp
    show "max (- 2 - 52) (- 1074) = (- 54 :: int)" by simp
    show "(2::rat) powi (- 54) = 1 / 18014398509481984" by (simp add: power_int_minus)
    show "roundEven (?x * of_int 3 / (1 / 18014398509481984)) = 5404319552844596" by code_simp
    show "of_int 5404319552844596 * (1 / 18014398509481984) = (1351079888211149 / 4503599627370496 :: rat)"
      by simp
  qed simp_all
  have f2: "fl (?x * 2 ^ nat (3 - 1)) = Fin (3602879701896397 / 9007199254740992)"
  proof (rule fl_eval)
    show "exponentOf (?x * 2 ^ nat (3 - 1)) = - 2" by code_simp
    show "max (- 2 - 52) (- 1074) = (- 54 :: int)" by simp
    show "(2::rat) powi (- 54) = 1 / 18014398509481984" by (simp add: power_int_minus)
    show "roundEven (?x * 2 ^ nat (3 - 1) / (1 / 18014398509481984)) = 7205759403792794" by code_simp
    show "of_int 7205759403792794 * (1 / 18014398509481984) = (3602879701896397 / 9007199254740992 :: rat)"
      by simp
  qed simp_all
  from calculateBackoff_formulas [of 3 "Fin 10" ?x 10] f1 f2 show ?thesis by simp
qed

subsection \<open>A deep copy reads as its original\<close>






subsection \<open>Results of \<^verbatim>\<open>map\<close> and \<^verbatim>\<open>Promise.all\<close> come in the order of the inputs\<close>





subsection \<open>C1: what a node's \<^verbatim>\<open>execute\<close> does with the prepare result\<close>

text \<open>Every object that is on the heap before \<open>mergeContext\<close> runs is the same after it:
  the function only allocates.\<close>

lemma setInContext_keeps: "take (length h) (snd (setInContext c k v h)) = h"
  by (simp add: setInContext_def alloc_def)

lemma mergeStep_keeps: "take n (snd ch) = h0 \<Longrightarrow> n \<le> length (snd ch) \<Longrightarrow>
    take n (snd (mergeStep ch kv)) = h0 \<and> n \<le> length (snd (mergeStep ch kv))"
  by (simp add: mergeStep_def setInContext_def alloc_def)

lemma foldl_mergeStep_keeps: "take n (snd ch) = h0 \<Longrightarrow> n \<le> length (snd ch) \<Longrightarrow>
    take n (snd (foldl mergeStep ch kvs)) = h0"
proof (induction kvs arbitrary: ch)
  case Nil
  then show ?case by simp
next
  case (Cons kv kvs)
  from mergeStep_keeps [OF Cons.prems] show ?case
    by (simp add: Cons.IH)
qed

lemma mergeContext_keeps_heap: "take (length h) (snd (mergeContext context prepareResult h)) = h"
  by (simp add: mergeContext_def Let_def foldl_mergeStep_keeps)

text \<open>
  C1.  For every Node and AsyncNode, when \<^verbatim>\<open>execute(context)\<close> completes and the prepare
  result is a record, every key of the prepare result (but \<^verbatim>\<open>snapshot\<close>, and
  \<^verbatim>\<open>metadata\<close> under a versioned snapshot) is present on the context that \<^verbatim>\<open>execute\<close>
  returns.

  The code does not do this.  With the context \<^verbatim>\<open>{}\<close> and \<^verbatim>\<open>prepare = (ctx) => ({foo: 1})\<close>
  both kinds of node complete and return the context they were given, and that object
  still has no property \<^verbatim>\<open>foo\<close>, while the prepare result (the object at position 2,
  respectively 1) has it.
\<close>

theorem execute_leaves_prepare_keys_out:
  "fst (node_execute (withPrepare prepFoo createNode) (Ref 0) [[]]) = Inr (Ref 0)
   \<and> hasKey (snd (node_execute (withPrepare prepFoo createNode) (Ref 0) [[]])) (Ref 2) ''foo''
   \<and> \<not> hasKey (snd (node_execute (withPrepare prepFoo createNode) (Ref 0) [[]])) (Ref 0) ''foo''
   \<and> fst (asyncNode_execute (withPrepare prepFoo createNode) (Ref 0) [[]]) = Inr (Ref 0)
   \<and> hasKey (snd (asyncNode_execute (withPrepare prepFoo createNode) (Ref 0) [[]])) (Ref 1) ''foo''
   \<and> \<not> hasKey (snd (asyncNode_execute (withPrepare prepFoo createNode) (Ref 0) [[]])) (Ref 0) ''foo''"
  by code_simp

subsection \<open>C3: what the branches of a fork share\<close>

text \<open>
  C3.  Each branch of a Fork or AsyncFork receives its own deep copy of the input context,
  so that a nested object mutated in place inside one branch is never seen through another
  branch's context.

  The code makes one deep copy and hands each branch \<^verbatim>\<open>{ ...copiedContext }\<close>.  With the
  context \<^verbatim>\<open>{data: {x: 1}}\<close>, a first branch whose finalize sets \<^verbatim>\<open>ctx.data.x = 99\<close> and
  a second branch that does nothing, the two contexts returned have the same object as
  their \<^verbatim>\<open>data\<close>, and the second branch's context reads \<^verbatim>\<open>data.x = 99\<close>.
\<close>

theorem fork_branches_share_nested_objects:
  "fst (fork_execute [withFinalize bumpNested createNode, createNode] (Ref 0)
          [[(''data'', Ref 1)], [(''x'', Num 1)]]) = Inr [Ref 4, Ref 8]
   \<and> getV (snd (fork_execute [withFinalize bumpNested createNode, createNode] (Ref 0)
          [[(''data'', Ref 1)], [(''x'', Num 1)]])) (Ref 4) ''data'' = Ref 2
   \<and> getV (snd (fork_execute [withFinalize bumpNested createNode, createNode] (Ref 0)
          [[(''data'', Ref 1)], [(''x'', Num 1)]])) (Ref 8) ''data'' = Ref 2
   \<and> getV (snd (fork_execute [withFinalize bumpNested createNode, createNode] (Ref 0)
          [[(''data'', Ref 1)], [(''x'', Num 1)]])) (Ref 2) ''x'' = Num 99
   \<and> map_option fst (asyncFork_execute
          [AsyncNode (withFinalize bumpNested createNode), SyncNode createNode] (Ref 0)
          [[(''data'', Ref 1)], [(''x'', Num 1)]]) = Some (Inr [Ref 4, Ref 5])
   \<and> map_option (\<lambda>r. getV (snd r) (Ref 5) ''data'') (asyncFork_execute
          [AsyncNode (withFinalize bumpNested createNode), SyncNode createNode] (Ref 0)
          [[(''data'', Ref 1)], [(''x'', Num 1)]]) = Some (Ref 2)
   \<and> map_option (\<lambda>r. getV (snd r) (Ref 2) ''x'') (asyncFork_execute
          [AsyncNode (withFinalize bumpNested createNode), SyncNode createNode] (Ref 0)
          [[(''data'', Ref 1)], [(''x'', Num 1)]]) = Some (Num 99)"
  by code_simp

subsection \<open>C4: the context an asynchronous node prepares on\<close>

text \<open>
  C4.  An AsyncNode calls \<^verbatim>\<open>prepare\<close> on an isolated deep copy of the incoming context,
  as the synchronous node does, so that what \<^verbatim>\<open>prepare\<close> writes into its argument is not
  seen on the caller's context.

  The synchronous node calls \<^verbatim>\<open>prepareFn(deepCopy(context))\<close>, the asynchronous one
  \<^verbatim>\<open>prepareFn(context)\<close>.  With the context \<^verbatim>\<open>{}\<close> and a prepare that sets
  \<^verbatim>\<open>ctx.touched = true\<close>, the caller's object is unchanged after the synchronous node
  and has the property after the asynchronous one.
\<close>

theorem async_prepare_writes_into_callers_context:
  "propsOf (snd (node_execute (withPrepare touch createNode) (Ref 0) [[]])) (Ref 0) = []
   \<and> propsOf (snd (asyncNode_execute (withPrepare touch createNode) (Ref 0) [[]])) (Ref 0)
       = [(''touched'', Bool True)]"
  by code_simp

subsection \<open>C5: the default join\<close>

text \<open>
  C5.  For every non-empty list of contexts the default execute of Join and of AsyncJoin
  merges left to right, so that the value of the later context wins for a key that several
  contexts have, and the result has \<^verbatim>\<open>outcome = "joined"\<close>.

  The asynchronous join folds with \<^verbatim>\<open>reduce\<close>; the synchronous one goes through
  \<^verbatim>\<open>compose\<close>, which is \<^verbatim>\<open>reduceRight\<close>, and so applies the last context first.  On
  \<^verbatim>\<open>[{a: 1}, {a: 2}]\<close> the synchronous join returns \<^verbatim>\<open>a = 1\<close>, the asynchronous one
  \<^verbatim>\<open>a = 2\<close>; both stamp the outcome.
\<close>

theorem sync_join_earlier_context_wins:
  "fst (join_execute (fst (createJoin [])) (snd (createJoin [])) [Ref 0, Ref 1]
          [[(''a'', Num 1)], [(''a'', Num 2)]]) = Inr (Ref 5)
   \<and> propsOf (snd (join_execute (fst (createJoin [])) (snd (createJoin [])) [Ref 0, Ref 1]
          [[(''a'', Num 1)], [(''a'', Num 2)]])) (Ref 5)
       = [(''a'', Num 1), (''outcome'', Str ''joined'')]
   \<and> propsOf (snd (join_execute (fst (createAsyncJoin [])) (snd (createAsyncJoin [])) [Ref 0, Ref 1]
          [[(''a'', Num 1)], [(''a'', Num 2)]])) (Ref 5)
       = [(''a'', Num 2), (''outcome'', Str ''joined'')]"
  by code_simp

subsection \<open>C8: the shape of a fork's result\<close>

lemma getProp_setProp: "getProp (setProp k v ps) k' = (if k' = k then v else getProp ps k')"
  by (induction ps) (auto simp: getProp_def)










subsection \<open>C9: builders and their receiver\<close>

text \<open>After \<^verbatim>\<open>j2 = j.withJoinFn(fn)\<close> on a join fresh from \<^verbatim>\<open>createJoin()\<close>, the
  \<^verbatim>\<open>execute\<close> of \<open>j\<close> itself runs \<open>fn\<close>, whatever \<open>fn\<close> is; likewise for the condition
  of a \<^verbatim>\<open>When\<close>.  The builders of a node only build a new record.\<close>

lemma withJoinFn_rebinds_receiver:
  "join_execute (fst (createJoin cells))
     (snd (withJoinFn (fst (createJoin cells)) fn (snd (createJoin cells)))) contexts h
   = fn contexts h"
  by (simp add: createJoin_def join_execute_def)

lemma withCondition_rebinds_receiver:
  "when_execute (fst (createWhen c target cells))
     (snd (withCondition (fst (createWhen c target cells)) fn (snd (createWhen c target cells))))
     context h
   = runWhen fn target context h"
  by (simp add: createWhen_def)

lemma node_builders_keep_receiver:
  "prepareFn (withExecuteLogic f n) = prepareFn n \<and> prepareFn (withFinalize g n) = prepareFn n
   \<and> prepareFn (withRetry p n) = prepareFn n \<and> executeFn (withPrepare f n) = executeFn n
   \<and> executeFn (withFinalize g n) = executeFn n \<and> executeFn (withRetry p n) = executeFn n
   \<and> finalizeFn (withPrepare f n) = finalizeFn n \<and> finalizeFn (withExecuteLogic f n) = finalizeFn n
   \<and> finalizeFn (withRetry p n) = finalizeFn n \<and> retryPolicy (withPrepare f n) = retryPolicy n
   \<and> retryPolicy (withExecuteLogic f n) = retryPolicy n
   \<and> retryPolicy (withFinalize g n) = retryPolicy n"
  by (simp add: withPrepare_def withExecuteLogic_def withFinalize_def withRetry_def)

text \<open>
  C9.  Every builder is a pure call that never changes its receiver: after
  \<^verbatim>\<open>j2 = j.withJoinFn(f)\<close> the execute of \<open>j\<close> still does the default merge, and after
  \<^verbatim>\<open>w2 = w.withCondition(p)\<close> the execute of \<open>w\<close> still uses its previous predicate.

  The code assigns the closure variable of the receiver (\<^verbatim>\<open>joinFn = fn\<close>,
  \<^verbatim>\<open>conditionFn = fn\<close>).  Before \<^verbatim>\<open>j.withJoinFn(pickNull)\<close> the join \<open>j\<close> merges
  \<^verbatim>\<open>[{a: 1}]\<close> into a new object; after it \<open>j\<close> returns \<^verbatim>\<open>null\<close>.  Before
  \<^verbatim>\<open>w.withCondition(never)\<close> the gate \<open>w = when("go", target)\<close> runs its target on
  \<^verbatim>\<open>{outcome: "go"}\<close>, which sets \<^verbatim>\<open>done\<close>; after it \<open>w\<close> leaves the context alone.
\<close>

theorem with_builders_change_receiver:
  "fst (join_execute (fst (createJoin [])) (snd (createJoin [])) [Ref 0] [[(''a'', Num 1)]])
     = Inr (Ref 3)
   \<and> fst (join_execute (fst (createJoin []))
            (snd (withJoinFn (fst (createJoin [])) pickNull (snd (createJoin []))))
            [Ref 0] [[(''a'', Num 1)]])
     = Inr Null
   \<and> hasKey (snd (when_execute (fst (createWhen ''go'' (withFinalize setDone createNode) []))
            (snd (createWhen ''go'' (withFinalize setDone createNode) []))
            (Ref 0) [[(''outcome'', Str ''go'')]])) (Ref 0) ''done''
   \<and> \<not> hasKey (snd (when_execute (fst (createWhen ''go'' (withFinalize setDone createNode) []))
            (snd (withCondition (fst (createWhen ''go'' (withFinalize setDone createNode) []))
                   never (snd (createWhen ''go'' (withFinalize setDone createNode) []))))
            (Ref 0) [[(''outcome'', Str ''go'')]])) (Ref 0) ''done''"
  by code_simp

subsection \<open>C2: which error a retried execute propagates\<close>

lemma shouldRetryOf_case: "shouldRetryOf policy e = (case retryPredicate policy of Some f \<Rightarrow> f e | None \<Rightarrow> True)"
  by (simp add: shouldRetryOf_def split: option.splits)

lemma retried_Suc:
  "retried exec accepts (Suc k) h hk \<Longrightarrow>
     \<exists>e h'. exec h = (Inl e, h') \<and> accepts (typedError e) \<and> retried exec accepts k h' hk"
  by (auto split: prod.splits sum.splits)

lemma retrySync_retried:
  "retried (exec p) (\<lambda>e. case pred of Some f \<Rightarrow> f e | None \<Rightarrow> True) k h hk \<Longrightarrow>
     attempt + int k < maxAtt \<Longrightarrow>
     retrySync exec pred maxAtt attempt p h = retrySync exec pred maxAtt (attempt + int k) p hk"
proof (induction k arbitrary: attempt h)
  case 0
  then show ?case by simp
next
  case (Suc k)
  from retried_Suc [OF Suc.prems(1)] obtain e h' where ex: "exec p h = (Inl e, h')"
    and acc: "(case pred of Some f \<Rightarrow> f (typedError e) | None \<Rightarrow> True)"
    and rest: "retried (exec p) (\<lambda>e. case pred of Some f \<Rightarrow> f e | None \<Rightarrow> True) k h' hk"
    by blast
  from Suc.prems(2) have lt: "attempt < maxAtt" and nl: "\<not> attempt \<ge> maxAtt - 1"
    and nx: "(attempt + 1) + int k < maxAtt" by simp_all
  from ex acc lt nl
  have s1: "retrySync exec pred maxAtt attempt p h = retrySync exec pred maxAtt (attempt + 1) p h'"
    by (subst retrySync.simps) simp
  have s2: "retrySync exec pred maxAtt (attempt + 1) p h' = retrySync exec pred maxAtt (attempt + 1 + int k) p hk"
    by (rule Suc.IH [OF rest nx])
  have eq: "attempt + 1 + int k = attempt + int (Suc k)" by simp
  show ?case unfolding s1 s2 eq by (rule refl)
qed

lemma executeWithRetries_retried:
  assumes quiet: "\<forall>a h. onRetry a h = (Inr (), h)"
  shows "retried exec shouldRetry k h hk \<Longrightarrow> attempt + int k < maxAtt \<Longrightarrow>
     executeWithRetries exec maxAtt shouldRetry onRetry attempt h
       = executeWithRetries exec maxAtt shouldRetry onRetry (attempt + int k) hk"
proof (induction k arbitrary: attempt h)
  case 0
  then show ?case by simp
next
  case (Suc k)
  from retried_Suc [OF Suc.prems(1)] obtain e h' where ex: "exec h = (Inl e, h')"
    and acc: "shouldRetry (typedError e)"
    and rest: "retried exec shouldRetry k h' hk"
    by blast
  from Suc.prems(2) have lt: "attempt < maxAtt" and nl: "\<not> attempt \<ge> maxAtt - 1"
    and nx: "(attempt + 1) + int k < maxAtt" by simp_all
  from ex acc lt nl quiet
  have s1: "executeWithRetries exec maxAtt shouldRetry onRetry attempt h
          = executeWithRetries exec maxAtt shouldRetry onRetry (attempt + 1) h'"
    by (subst executeWithRetries.simps) simp
  have s2: "executeWithRetries exec maxAtt shouldRetry onRetry (attempt + 1) h'
          = executeWithRetries exec maxAtt shouldRetry onRetry (attempt + 1 + int k) hk"
    by (rule Suc.IH [OF rest nx])
  have eq: "attempt + 1 + int k = attempt + int (Suc k)" by simp
  show ?case unfolding s1 s2 eq by (rule refl)
qed

lemma shouldRetryOf_fun:
  "shouldRetryOf policy = (\<lambda>e. case retryPredicate policy of Some f \<Rightarrow> f e | None \<Rightarrow> True)"
  by (rule ext) (rule shouldRetryOf_case)

text \<open>The attempt that ends the loop, made in the heap \<open>hk\<close> after \<open>k\<close> retried attempts.\<close>

lemma retrySync_ends:
  assumes r: "retried (exec p) (shouldRetryOf policy) k h hk" and k: "int k < maxAttempts policy"
  shows "exec p hk = (Inr v, hf) \<Longrightarrow>
           retrySync exec (retryPredicate policy) (maxAttempts policy) 0 p h = (Inr v, hf)"
    and "exec p hk = (Inl e, hf) \<Longrightarrow> int k = maxAttempts policy - 1 \<or> \<not> shouldRetryOf policy (typedError e) \<Longrightarrow>
           retrySync exec (retryPredicate policy) (maxAttempts policy) 0 p h = (Inl (typedError e), hf)"
proof -
  from r have r': "retried (exec p) (\<lambda>e. case retryPredicate policy of Some f \<Rightarrow> f e | None \<Rightarrow> True) k h hk"
    by (simp only: shouldRetryOf_fun)
  from k have k0: "0 + int k < maxAttempts policy" by simp
  have skip: "retrySync exec (retryPredicate policy) (maxAttempts policy) 0 p h
        = retrySync exec (retryPredicate policy) (maxAttempts policy) (int k) p hk"
    using retrySync_retried [where exec = exec and p = p and pred = "retryPredicate policy", OF r' k0] by simp
  show "retrySync exec (retryPredicate policy) (maxAttempts policy) 0 p h = (Inr v, hf)"
    if "exec p hk = (Inr v, hf)"
    unfolding skip using that k by (subst retrySync.simps) simp
  show "retrySync exec (retryPredicate policy) (maxAttempts policy) 0 p h = (Inl (typedError e), hf)"
    if "exec p hk = (Inl e, hf)" "int k = maxAttempts policy - 1 \<or> \<not> shouldRetryOf policy (typedError e)"
    unfolding skip using that k by (subst retrySync.simps) (auto simp: shouldRetryOf_case)
qed

lemma executeWithRetries_ends:
  assumes r: "retried exec (shouldRetryOf policy) k h hk" and k: "int k < maxAttempts policy"
  shows "exec hk = (Inr v, hf) \<Longrightarrow>
           executeWithRetries exec (maxAttempts policy) (shouldRetryOf policy) (onRetrySleep policy) 0 h = (Inr v, hf)"
    and "exec hk = (Inl e, hf) \<Longrightarrow> int k = maxAttempts policy - 1 \<or> \<not> shouldRetryOf policy (typedError e) \<Longrightarrow>
           executeWithRetries exec (maxAttempts policy) (shouldRetryOf policy) (onRetrySleep policy) 0 h
             = (Inl (typedError e), hf)"
proof -
  have q: "\<forall>a h. onRetrySleep policy a h = (Inr (), h)" by (simp add: onRetrySleep_def)
  from k have k0: "0 + int k < maxAttempts policy" by simp
  have skip: "executeWithRetries exec (maxAttempts policy) (shouldRetryOf policy) (onRetrySleep policy) 0 h
        = executeWithRetries exec (maxAttempts policy) (shouldRetryOf policy) (onRetrySleep policy) (int k) hk"
    using executeWithRetries_retried [OF q r k0] by simp
  show "executeWithRetries exec (maxAttempts policy) (shouldRetryOf policy) (onRetrySleep policy) 0 h = (Inr v, hf)"
    if "exec hk = (Inr v, hf)"
    unfolding skip using that k by (subst executeWithRetries.simps) simp
  show "executeWithRetries exec (maxAttempts policy) (shouldRetryOf policy) (onRetrySleep policy) 0 h
          = (Inl (typedError e), hf)"
    if "exec hk = (Inl e, hf)" "int k = maxAttempts policy - 1 \<or> \<not> shouldRetryOf policy (typedError e)"
    unfolding skip using that k by (subst executeWithRetries.simps) auto
qed


lemma retrySync_outcome:
  "attempt < maxAtt \<Longrightarrow> retrySync exec pred maxAtt attempt p h = (res, hf) \<Longrightarrow>
     \<exists>k hk. attempt + int k < maxAtt
        \<and> retried (exec p) (\<lambda>e. case pred of Some f \<Rightarrow> f e | None \<Rightarrow> True) k h hk
        \<and> (case exec p hk of
              (Inr v, h') \<Rightarrow> res = Inr v \<and> hf = h'
            | (Inl e, h') \<Rightarrow> res = Inl (typedError e) \<and> hf = h'
                \<and> (attempt + int k = maxAtt - 1
                     \<or> \<not> (case pred of Some f \<Rightarrow> f (typedError e) | None \<Rightarrow> True)))"
proof (induction "nat (maxAtt - attempt)" arbitrary: attempt h rule: less_induct)
  case less
  let ?acc = "\<lambda>e. case pred of Some f \<Rightarrow> f e | None \<Rightarrow> True"
  obtain r h' where ex: "exec p h = (r, h')" by (cases "exec p h") auto
  show ?case
  proof (cases r)
    case (Inr v)
    with ex less.prems have "res = Inr v \<and> hf = h'" by (subst (asm) retrySync.simps) simp
    with ex Inr less.prems(1) show ?thesis
      by (intro exI [of _ 0] exI [of _ h]) simp
  next
    case (Inl e)
    show ?thesis
    proof (cases "\<not> ?acc (typedError e) \<or> attempt \<ge> maxAtt - 1")
      case True
      with ex Inl less.prems have "res = Inl (typedError e) \<and> hf = h'"
        by (subst (asm) retrySync.simps) auto
      moreover from True less.prems(1) have "attempt = maxAtt - 1 \<or> \<not> ?acc (typedError e)" by auto
      ultimately show ?thesis using ex Inl less.prems(1)
        by (intro exI [of _ 0] exI [of _ h]) simp
    next
      case False
      with ex Inl less.prems have step: "retrySync exec pred maxAtt (attempt + 1) p h' = (res, hf)"
        by (subst (asm) retrySync.simps) simp
      from False less.prems have m: "nat (maxAtt - (attempt + 1)) < nat (maxAtt - attempt)"
        and lt: "attempt + 1 < maxAtt" by auto
      from less.hyps [OF m lt step] show ?thesis
      proof (elim exE conjE)
        fix k hk
        assume b: "attempt + 1 + int k < maxAtt"
          and r: "retried (exec p) ?acc k h' hk"
          and c: "(case exec p hk of
              (Inr v, h') \<Rightarrow> res = Inr v \<and> hf = h'
            | (Inl e, h') \<Rightarrow> res = Inl (typedError e) \<and> hf = h'
                \<and> (attempt + 1 + int k = maxAtt - 1 \<or> \<not> ?acc (typedError e)))"
        from False ex Inl r have r': "retried (exec p) ?acc (Suc k) h hk" by simp
        have eq: "attempt + 1 + int k = attempt + int (Suc k)" by simp
        show ?thesis
        proof (intro exI conjI)
          from b show "attempt + int (Suc k) < maxAtt" by simp
          show "retried (exec p) ?acc (Suc k) h hk" by (rule r')
          from c show "(case exec p hk of
              (Inr v, h') \<Rightarrow> res = Inr v \<and> hf = h'
            | (Inl e, h') \<Rightarrow> res = Inl (typedError e) \<and> hf = h'
                \<and> (attempt + int (Suc k) = maxAtt - 1 \<or> \<not> ?acc (typedError e)))"
            unfolding eq .
        qed
      qed
    qed
  qed
qed

lemma executeWithRetries_outcome:
  assumes quiet: "\<forall>a h. onRetry a h = (Inr (), h)"
  shows "attempt < maxAtt \<Longrightarrow> executeWithRetries exec maxAtt shouldRetry onRetry attempt h = (res, hf) \<Longrightarrow>
     \<exists>k hk. attempt + int k < maxAtt
        \<and> retried exec shouldRetry k h hk
        \<and> (case exec hk of
              (Inr v, h') \<Rightarrow> res = Inr v \<and> hf = h'
            | (Inl e, h') \<Rightarrow> res = Inl (typedError e) \<and> hf = h'
                \<and> (attempt + int k = maxAtt - 1 \<or> \<not> shouldRetry (typedError e)))"
proof (induction "nat (maxAtt - attempt)" arbitrary: attempt h rule: less_induct)
  case less
  obtain r h' where ex: "exec h = (r, h')" by (cases "exec h") auto
  show ?case
  proof (cases r)
    case (Inr v)
    with ex less.prems have "res = Inr v \<and> hf = h'" by (subst (asm) executeWithRetries.simps) simp
    with ex Inr less.prems(1) show ?thesis
      by (intro exI [of _ 0] exI [of _ h]) simp
  next
    case (Inl e)
    show ?thesis
    proof (cases "\<not> shouldRetry (typedError e) \<or> attempt \<ge> maxAtt - 1")
      case True
      with ex Inl less.prems have "res = Inl (typedError e) \<and> hf = h'"
        by (subst (asm) executeWithRetries.simps) auto
      moreover from True less.prems(1) have "attempt = maxAtt - 1 \<or> \<not> shouldRetry (typedError e)" by auto
      ultimately show ?thesis using ex Inl less.prems(1)
        by (intro exI [of _ 0] exI [of _ h]) simp
    next
      case False
      with ex Inl less.prems quiet
      have step: "executeWithRetries exec maxAtt shouldRetry onRetry (attempt + 1) h' = (res, hf)"
        by (subst (asm) executeWithRetries.simps) simp
      from False less.prems have m: "nat (maxAtt - (attempt + 1)) < nat (maxAtt - attempt)"
        and lt: "attempt + 1 < maxAtt" by auto
      from less.hyps [OF m lt step] show ?thesis
      proof (elim exE conjE)
        fix k hk
        assume b: "attempt + 1 + int k < maxAtt"
          and r: "retried exec shouldRetry k h' hk"
          and c: "(case exec hk of
              (Inr v, h') \<Rightarrow> res = Inr v \<and> hf = h'
            | (Inl e, h') \<Rightarrow> res = Inl (typedError e) \<and> hf = h'
                \<and> (attempt + 1 + int k = maxAtt - 1 \<or> \<not> shouldRetry (typedError e)))"
        from False ex Inl r have r': "retried exec shouldRetry (Suc k) h hk" by simp
        have eq: "attempt + 1 + int k = attempt + int (Suc k)" by simp
        show ?thesis
        proof (intro exI conjI)
          from b show "attempt + int (Suc k) < maxAtt" by simp
          show "retried exec shouldRetry (Suc k) h hk" by (rule r')
          from c show "(case exec hk of
              (Inr v, h') \<Rightarrow> res = Inr v \<and> hf = h'
            | (Inl e, h') \<Rightarrow> res = Inl (typedError e) \<and> hf = h'
                \<and> (attempt + int (Suc k) = maxAtt - 1 \<or> \<not> shouldRetry (typedError e)))"
            unfolding eq .
        qed
      qed
    qed
  qed
qed


text \<open>
  C2 as the claim states it: a retry-wrapped execute that fails on each of its
  \<^verbatim>\<open>maxAttempts\<close> attempts, the predicate accepting each error, propagates an error of kind
  RetryExhausted.  It does not: with \<^verbatim>\<open>maxAttempts = 2\<close>, the default predicate and an
  execute that always throws \<^verbatim>\<open>new Error('boom')\<close>, both kinds of node propagate
  \<^verbatim>\<open>Error('boom')\<close>, which is not the error \<^verbatim>\<open>new Error(ERROR_EXHAUSTED_RETRIES)\<close>.
\<close>

theorem retry_exhaustion_counterexample: "fst (node_execute (withRetry twice (withExecuteLogic alwaysBoom createNode)) (Ref 0) [[]]) = Inl (ErrorObj ''boom'')
   \<and> fst (asyncNode_execute (withRetry twice (withExecuteLogic alwaysBoom createNode)) (Ref 0) [[]]) = Inl (ErrorObj ''boom'')
   \<and> ErrorObj ''boom'' \<noteq> ErrorObj ERROR_EXHAUSTED_RETRIES"
  by code_simp

text \<open>
  C2, amended.  For the loop of the synchronous node and for \<^verbatim>\<open>executeWithRetries\<close> of the
  asynchronous one, started at attempt 0 in the heap \<open>h\<close> under a policy:
  \<^item> if \<^verbatim>\<open>maxAttempts\<close> is at least 1 and the first \<^verbatim>\<open>maxAttempts - 1\<close> attempts each
    throw an error the predicate accepts, and the next attempt, the last, made in the heap
    \<open>hl\<close> they left, throws \<open>e\<close>, then the error propagated is \<open>e\<close> itself (wrapped into
    an \<^verbatim>\<open>Error\<close> when it is none), with the heap that last attempt left;
  \<^item> if after \<open>k < maxAttempts\<close> retried attempts the next one throws an error that the
    predicate rejects, that error propagates at once;
  \<^item> if after \<open>k < maxAttempts\<close> retried attempts the next one returns, the loop returns
    its result;
  \<^item> the error \<^verbatim>\<open>Exhausted all retry attempts\<close> is what the loop gives when
    \<^verbatim>\<open>maxAttempts\<close> is zero or less, where no attempt is made;
  \<^item> with \<^verbatim>\<open>maxAttempts\<close> at least 1, whatever the loop ends in is of one of these kinds:
    the result or the error of an attempt made after \<open>j < maxAttempts\<close> retried ones, the
    error being rejected by the predicate or that of attempt number \<^verbatim>\<open>maxAttempts\<close>;
  \<^item> the \<^verbatim>\<open>execute\<close> of a node with the policy, whose prepare returned \<open>pr\<close>,
    propagates the error of the last attempt to its caller.
\<close>

theorem retry_error_propagation:
  "(0 < maxAttempts policy
      \<and> retried (exec p) (shouldRetryOf policy) (nat (maxAttempts policy - 1)) h hl
      \<and> exec p hl = (Inl e, hf) \<longrightarrow>
      retrySync exec (retryPredicate policy) (maxAttempts policy) 0 p h = (Inl (typedError e), hf)
    \<and> executeWithRetries (exec p) (maxAttempts policy) (shouldRetryOf policy) (onRetrySleep policy) 0 h
         = (Inl (typedError e), hf))
   \<and> (int k < maxAttempts policy
      \<and> retried (exec p) (shouldRetryOf policy) k h hk
      \<and> exec p hk = (Inl x, hx) \<and> \<not> shouldRetryOf policy (typedError x) \<longrightarrow>
      retrySync exec (retryPredicate policy) (maxAttempts policy) 0 p h = (Inl (typedError x), hx)
    \<and> executeWithRetries (exec p) (maxAttempts policy) (shouldRetryOf policy) (onRetrySleep policy) 0 h
         = (Inl (typedError x), hx))
   \<and> (int k < maxAttempts policy
      \<and> retried (exec p) (shouldRetryOf policy) k h hk
      \<and> exec p hk = (Inr v, hv) \<longrightarrow>
      retrySync exec (retryPredicate policy) (maxAttempts policy) 0 p h = (Inr v, hv)
    \<and> executeWithRetries (exec p) (maxAttempts policy) (shouldRetryOf policy) (onRetrySleep policy) 0 h
         = (Inr v, hv))
   \<and> (maxAttempts policy \<le> 0 \<longrightarrow>
      retrySync exec (retryPredicate policy) (maxAttempts policy) 0 p h = (Inl (ErrorObj ERROR_EXHAUSTED_RETRIES), h)
    \<and> executeWithRetries (exec p) (maxAttempts policy) (shouldRetryOf policy) (onRetrySleep policy) 0 h
         = (Inl (ErrorObj ERROR_EXHAUSTED_RETRIES), h))
   \<and> (0 < maxAttempts policy
      \<and> retrySync exec (retryPredicate policy) (maxAttempts policy) 0 p h = (res, hr) \<longrightarrow>
      (\<exists>j hj. int j < maxAttempts policy \<and> retried (exec p) (shouldRetryOf policy) j h hj
         \<and> (case exec p hj of
               (Inr w, hw) \<Rightarrow> res = Inr w \<and> hr = hw
             | (Inl y, hw) \<Rightarrow> res = Inl (typedError y) \<and> hr = hw
                 \<and> (int j = maxAttempts policy - 1 \<or> \<not> shouldRetryOf policy (typedError y)))))
   \<and> (0 < maxAttempts policy
      \<and> executeWithRetries (exec p) (maxAttempts policy) (shouldRetryOf policy) (onRetrySleep policy) 0 h
           = (ares, har) \<longrightarrow>
      (\<exists>j hj. int j < maxAttempts policy \<and> retried (exec p) (shouldRetryOf policy) j h hj
         \<and> (case exec p hj of
               (Inr w, hw) \<Rightarrow> ares = Inr w \<and> har = hw
             | (Inl y, hw) \<Rightarrow> ares = Inl (typedError y) \<and> har = hw
                 \<and> (int j = maxAttempts policy - 1 \<or> \<not> shouldRetryOf policy (typedError y)))))
   \<and> (retryPolicy nd = Some policy \<and> 0 < maxAttempts policy
      \<and> deepCopy ctx hc = (Inr cp, hcp) \<and> prepareFn nd cp hcp = (Inr pr, hp)
      \<and> retried (executeFn nd pr) (shouldRetryOf policy) (nat (maxAttempts policy - 1)) hp hq
      \<and> executeFn nd pr hq = (Inl z, hz) \<longrightarrow>
      node_execute nd ctx hc = (Inl (typedError z), hz))
   \<and> (retryPolicy nd = Some policy \<and> 0 < maxAttempts policy
      \<and> prepareFn nd ctx hc = (Inr apr, hap)
      \<and> retried (executeFn nd apr) (shouldRetryOf policy) (nat (maxAttempts policy - 1)) hap haq
      \<and> executeFn nd apr haq = (Inl az, haz) \<longrightarrow>
      asyncNode_execute nd ctx hc = (Inl (typedError az), haz))"
proof (intro conjI impI)
  assume a: "0 < maxAttempts policy
      \<and> retried (exec p) (shouldRetryOf policy) (nat (maxAttempts policy - 1)) h hl
      \<and> exec p hl = (Inl e, hf)"
  then have k: "int (nat (maxAttempts policy - 1)) < maxAttempts policy"
    and l: "int (nat (maxAttempts policy - 1)) = maxAttempts policy - 1 \<or> \<not> shouldRetryOf policy (typedError e)"
    and r: "retried (exec p) (shouldRetryOf policy) (nat (maxAttempts policy - 1)) h hl"
    and x: "exec p hl = (Inl e, hf)" by simp_all
  from retrySync_ends(2) [where exec = exec and p = p, OF r k x l]
  show "retrySync exec (retryPredicate policy) (maxAttempts policy) 0 p h = (Inl (typedError e), hf)" .
  from executeWithRetries_ends(2) [OF r k x l]
  show "executeWithRetries (exec p) (maxAttempts policy) (shouldRetryOf policy) (onRetrySleep policy) 0 h
         = (Inl (typedError e), hf)" .
next
  assume a: "int k < maxAttempts policy
      \<and> retried (exec p) (shouldRetryOf policy) k h hk
      \<and> exec p hk = (Inl x, hx) \<and> \<not> shouldRetryOf policy (typedError x)"
  then have k: "int k < maxAttempts policy"
    and r: "retried (exec p) (shouldRetryOf policy) k h hk"
    and x: "exec p hk = (Inl x, hx)"
    and l: "int k = maxAttempts policy - 1 \<or> \<not> shouldRetryOf policy (typedError x)" by simp_all
  from retrySync_ends(2) [where exec = exec and p = p, OF r k x l]
  show "retrySync exec (retryPredicate policy) (maxAttempts policy) 0 p h = (Inl (typedError x), hx)" .
  from executeWithRetries_ends(2) [OF r k x l]
  show "executeWithRetries (exec p) (maxAttempts policy) (shouldRetryOf policy) (onRetrySleep policy) 0 h
         = (Inl (typedError x), hx)" .
next
  assume a: "int k < maxAttempts policy
      \<and> retried (exec p) (shouldRetryOf policy) k h hk
      \<and> exec p hk = (Inr v, hv)"
  then have k: "int k < maxAttempts policy"
    and r: "retried (exec p) (shouldRetryOf policy) k h hk"
    and x: "exec p hk = (Inr v, hv)" by simp_all
  from retrySync_ends(1) [where exec = exec and p = p, OF r k x]
  show "retrySync exec (retryPredicate policy) (maxAttempts policy) 0 p h = (Inr v, hv)" .
  from executeWithRetries_ends(1) [OF r k x]
  show "executeWithRetries (exec p) (maxAttempts policy) (shouldRetryOf policy) (onRetrySleep policy) 0 h
         = (Inr v, hv)" .
next
  assume a: "maxAttempts policy \<le> 0"
  then show "retrySync exec (retryPredicate policy) (maxAttempts policy) 0 p h = (Inl (ErrorObj ERROR_EXHAUSTED_RETRIES), h)"
    by (subst retrySync.simps) simp
  from a show "executeWithRetries (exec p) (maxAttempts policy) (shouldRetryOf policy) (onRetrySleep policy) 0 h
         = (Inl (ErrorObj ERROR_EXHAUSTED_RETRIES), h)"
    by (subst executeWithRetries.simps) simp
next
  assume a: "0 < maxAttempts policy
      \<and> retrySync exec (retryPredicate policy) (maxAttempts policy) 0 p h = (res, hr)"
  from retrySync_outcome [where exec = exec and p = p, OF conjunct1 [OF a] conjunct2 [OF a]]
  show "\<exists>j hj. int j < maxAttempts policy \<and> retried (exec p) (shouldRetryOf policy) j h hj
         \<and> (case exec p hj of
               (Inr w, hw) \<Rightarrow> res = Inr w \<and> hr = hw
             | (Inl y, hw) \<Rightarrow> res = Inl (typedError y) \<and> hr = hw
                 \<and> (int j = maxAttempts policy - 1 \<or> \<not> shouldRetryOf policy (typedError y)))"
    by (simp only: shouldRetryOf_fun add_0)
next
  assume a: "0 < maxAttempts policy
      \<and> executeWithRetries (exec p) (maxAttempts policy) (shouldRetryOf policy) (onRetrySleep policy) 0 h
           = (ares, har)"
  have q: "\<forall>a h. onRetrySleep policy a h = (Inr (), h)" by (simp add: onRetrySleep_def)
  from executeWithRetries_outcome [OF q conjunct1 [OF a] conjunct2 [OF a]]
  show "\<exists>j hj. int j < maxAttempts policy \<and> retried (exec p) (shouldRetryOf policy) j h hj
         \<and> (case exec p hj of
               (Inr w, hw) \<Rightarrow> ares = Inr w \<and> har = hw
             | (Inl y, hw) \<Rightarrow> ares = Inl (typedError y) \<and> har = hw
                 \<and> (int j = maxAttempts policy - 1 \<or> \<not> shouldRetryOf policy (typedError y)))"
    by (simp only: add_0)
next
  assume a: "retryPolicy nd = Some policy \<and> 0 < maxAttempts policy
      \<and> deepCopy ctx hc = (Inr cp, hcp) \<and> prepareFn nd cp hcp = (Inr pr, hp)
      \<and> retried (executeFn nd pr) (shouldRetryOf policy) (nat (maxAttempts policy - 1)) hp hq
      \<and> executeFn nd pr hq = (Inl z, hz)"
  then have k: "int (nat (maxAttempts policy - 1)) < maxAttempts policy"
    and l: "int (nat (maxAttempts policy - 1)) = maxAttempts policy - 1 \<or> \<not> shouldRetryOf policy (typedError z)"
    and r: "retried (executeFn nd pr) (shouldRetryOf policy) (nat (maxAttempts policy - 1)) hp hq"
    and x: "executeFn nd pr hq = (Inl z, hz)" by simp_all
  from retrySync_ends(2) [where exec = "executeFn nd" and p = pr, OF r k x l]
  have "retrySync (executeFn nd) (retryPredicate policy) (maxAttempts policy) 0 pr hp = (Inl (typedError z), hz)" .
  with a show "node_execute nd ctx hc = (Inl (typedError z), hz)"
    by (simp add: node_execute_def andThen_def)
next
  assume a: "retryPolicy nd = Some policy \<and> 0 < maxAttempts policy
      \<and> prepareFn nd ctx hc = (Inr apr, hap)
      \<and> retried (executeFn nd apr) (shouldRetryOf policy) (nat (maxAttempts policy - 1)) hap haq
      \<and> executeFn nd apr haq = (Inl az, haz)"
  then have k: "int (nat (maxAttempts policy - 1)) < maxAttempts policy"
    and l: "int (nat (maxAttempts policy - 1)) = maxAttempts policy - 1 \<or> \<not> shouldRetryOf policy (typedError az)"
    and r: "retried (executeFn nd apr) (shouldRetryOf policy) (nat (maxAttempts policy - 1)) hap haq"
    and x: "executeFn nd apr haq = (Inl az, haz)" by simp_all
  from executeWithRetries_ends(2) [OF r k x l]
  have "executeWithRetries (executeFn nd apr) (maxAttempts policy) (shouldRetryOf policy) (onRetrySleep policy) 0 hap
          = (Inl (typedError az), haz)" .
  with a show "asyncNode_execute nd ctx hc = (Inl (typedError az), haz)"
    by (simp add: asyncNode_execute_def andThen_def)
qed


text \<open>Runs with an execute that counts its calls: under three attempts the error is that
  of the third call; \<open>failTwice\<close> under two attempts ends in the error of its second call
  and under three attempts returns the result of the third; a rejected error is that of the
  first call.\<close>

theorem retry_error_propagation_witness:
  "retrySync countAndFail (retryPredicate thrice) (maxAttempts thrice) 0 (Ref 0) [[(''count'', Num 0)]]
     = (Inl (ErrorObj ''fail3''), [[(''count'', Num 3)]])
   \<and> executeWithRetries (countAndFail (Ref 0)) (maxAttempts thrice) (shouldRetryOf thrice) (onRetrySleep thrice) 0
       [[(''count'', Num 0)]]
     = (Inl (ErrorObj ''fail3''), [[(''count'', Num 3)]])
   \<and> retrySync failTwice (retryPredicate twice) (maxAttempts twice) 0 (Ref 0) [[(''count'', Num 0)]]
     = (Inl (ErrorObj ''fail2''), [[(''count'', Num 2)]])
   \<and> retrySync countAndFail (retryPredicate rejecting) (maxAttempts rejecting) 0 (Ref 0) [[(''count'', Num 0)]]
     = (Inl (ErrorObj ''fail1''), [[(''count'', Num 1)]])
   \<and> executeWithRetries (countAndFail (Ref 0)) (maxAttempts rejecting) (shouldRetryOf rejecting)
       (onRetrySleep rejecting) 0 [[(''count'', Num 0)]]
     = (Inl (ErrorObj ''fail1''), [[(''count'', Num 1)]])
   \<and> retrySync failTwice (retryPredicate thrice) (maxAttempts thrice) 0 (Ref 0) [[(''count'', Num 0)]]
     = (Inr (Num 3), [[(''count'', Num 3)]])
   \<and> executeWithRetries (failTwice (Ref 0)) (maxAttempts thrice) (shouldRetryOf thrice) (onRetrySleep thrice) 0
       [[(''count'', Num 0)]]
     = (Inr (Num 3), [[(''count'', Num 3)]])
   \<and> retrySync countAndFail (retryPredicate noAttempt) (maxAttempts noAttempt) 0 (Ref 0) [[(''count'', Num 0)]]
     = (Inl (ErrorObj ERROR_EXHAUSTED_RETRIES), [[(''count'', Num 0)]])
   \<and> executeWithRetries (countAndFail (Ref 0)) (maxAttempts noAttempt) (shouldRetryOf noAttempt)
       (onRetrySleep noAttempt) 0 [[(''count'', Num 0)]]
     = (Inl (ErrorObj ERROR_EXHAUSTED_RETRIES), [[(''count'', Num 0)]])
   \<and> node_execute (withRetry thrice (withExecuteLogic countAndFail createNode)) (Ref 0) [[(''count'', Num 0)]]
     = (Inl (ErrorObj ''fail3''), [[(''count'', Num 0)], [(''count'', Num 3)]])
   \<and> asyncNode_execute (withRetry thrice (withExecuteLogic countAndFail createNode)) (Ref 0) [[(''count'', Num 0)]]
     = (Inl (ErrorObj ''fail3''), [[(''count'', Num 3)]])"
proof -
  let ?h = "[[(''count'', Num 0)]]"
  let ?N = "withRetry thrice (withExecuteLogic countAndFail createNode)"
  have a: "0 < maxAttempts thrice
      \<and> retried (countAndFail (Ref 0)) (shouldRetryOf thrice) (nat (maxAttempts thrice - 1)) ?h [[(''count'', Num 2)]]
      \<and> countAndFail (Ref 0) [[(''count'', Num 2)]] = (Inl (ErrorObj ''fail3''), [[(''count'', Num 3)]])"
    by code_simp
  have a2: "0 < maxAttempts twice
      \<and> retried (failTwice (Ref 0)) (shouldRetryOf twice) (nat (maxAttempts twice - 1)) ?h [[(''count'', Num 1)]]
      \<and> failTwice (Ref 0) [[(''count'', Num 1)]] = (Inl (ErrorObj ''fail2''), [[(''count'', Num 2)]])"
    by code_simp
  have b: "int 0 < maxAttempts rejecting
      \<and> retried (countAndFail (Ref 0)) (shouldRetryOf rejecting) 0 ?h ?h
      \<and> countAndFail (Ref 0) ?h = (Inl (ErrorObj ''fail1''), [[(''count'', Num 1)]])
      \<and> \<not> shouldRetryOf rejecting (typedError (ErrorObj ''fail1''))"
    by code_simp
  have c: "int 2 < maxAttempts thrice
      \<and> retried (failTwice (Ref 0)) (shouldRetryOf thrice) 2 ?h [[(''count'', Num 2)]]
      \<and> failTwice (Ref 0) [[(''count'', Num 2)]] = (Inr (Num 3), [[(''count'', Num 3)]])"
    by code_simp
  have d: "maxAttempts noAttempt \<le> 0" by (simp add: noAttempt_def)
  have np: "retryPolicy ?N = Some thrice" by (simp add: withRetry_def)
  have n: "0 < maxAttempts thrice
      \<and> deepCopy (Ref 0) ?h = (Inr (Ref 1), [[(''count'', Num 0)], [(''count'', Num 0)]])
      \<and> prepareFn ?N (Ref 1) [[(''count'', Num 0)], [(''count'', Num 0)]]
          = (Inr (Ref 1), [[(''count'', Num 0)], [(''count'', Num 0)]])
      \<and> retried (executeFn ?N (Ref 1)) (shouldRetryOf thrice) (nat (maxAttempts thrice - 1))
            [[(''count'', Num 0)], [(''count'', Num 0)]] [[(''count'', Num 0)], [(''count'', Num 2)]]
      \<and> executeFn ?N (Ref 1) [[(''count'', Num 0)], [(''count'', Num 2)]]
          = (Inl (ErrorObj ''fail3''), [[(''count'', Num 0)], [(''count'', Num 3)]])"
    by code_simp
  have an: "0 < maxAttempts thrice
      \<and> prepareFn ?N (Ref 0) ?h = (Inr (Ref 0), ?h)
      \<and> retried (executeFn ?N (Ref 0)) (shouldRetryOf thrice) (nat (maxAttempts thrice - 1))
            ?h [[(''count'', Num 2)]]
      \<and> executeFn ?N (Ref 0) [[(''count'', Num 2)]] = (Inl (ErrorObj ''fail3''), [[(''count'', Num 3)]])"
    by code_simp
  note t = retry_error_propagation [where policy = thrice and exec = countAndFail and p = "Ref 0" and h = ?h
      and hl = "[[(''count'', Num 2)]]" and e = "ErrorObj ''fail3''" and hf = "[[(''count'', Num 3)]]"
      and nd = ?N and ctx = "Ref 0" and hc = ?h and cp = "Ref 1"
      and hcp = "[[(''count'', Num 0)], [(''count'', Num 0)]]" and pr = "Ref 1"
      and hp = "[[(''count'', Num 0)], [(''count'', Num 0)]]"
      and hq = "[[(''count'', Num 0)], [(''count'', Num 2)]]" and z = "ErrorObj ''fail3''"
      and hz = "[[(''count'', Num 0)], [(''count'', Num 3)]]"
      and apr = "Ref 0" and hap = ?h and haq = "[[(''count'', Num 2)]]" and az = "ErrorObj ''fail3''"
      and haz = "[[(''count'', Num 3)]]"]
  note t2 = retry_error_propagation [where policy = twice and exec = failTwice and p = "Ref 0" and h = ?h
      and hl = "[[(''count'', Num 1)]]" and e = "ErrorObj ''fail2''" and hf = "[[(''count'', Num 2)]]"]
  note u = retry_error_propagation [where policy = rejecting and exec = countAndFail and p = "Ref 0" and h = ?h
      and k = 0 and hk = ?h and x = "ErrorObj ''fail1''" and hx = "[[(''count'', Num 1)]]"]
  note v = retry_error_propagation [where policy = thrice and exec = failTwice and p = "Ref 0" and h = ?h
      and k = 2 and hk = "[[(''count'', Num 2)]]" and v = "Num 3" and hv = "[[(''count'', Num 3)]]"]
  note w = retry_error_propagation [where policy = noAttempt and exec = countAndFail and p = "Ref 0" and h = ?h]
  note r1 = t [THEN conjunct1, rule_format, OF a]
  note r2 = t2 [THEN conjunct1, rule_format, OF a2, THEN conjunct1]
  note r3 = u [THEN conjunct2, THEN conjunct1, rule_format, OF b]
  note r4 = v [THEN conjunct2, THEN conjunct2, THEN conjunct1, rule_format, OF c]
  note r5 = w [THEN conjunct2, THEN conjunct2, THEN conjunct2, THEN conjunct1, rule_format, OF d]
  note r6 = t [THEN conjunct2, THEN conjunct2, THEN conjunct2, THEN conjunct2, THEN conjunct2, THEN conjunct2,
      THEN conjunct1, rule_format, OF conjI [OF np n]]
  note r7 = t [THEN conjunct2, THEN conjunct2, THEN conjunct2, THEN conjunct2, THEN conjunct2, THEN conjunct2,
      THEN conjunct2, rule_format, OF conjI [OF np an]]
  from r1 r2 r3 r4 r5 r6 r7 show ?thesis by simp
qed

subsection \<open>Chunking covers the array\<close>

text \<open>With a positive chunk size \<^verbatim>\<open>chunkArray\<close> ends, and its chunks, one after the other,
  are the array.  The synchronous batch passes \<^verbatim>\<open>Math.min(items.length, 100)\<close>, which is
  positive unless there is no item, and then the loop does not start.\<close>

lemma slice_chunk:
  assumes "0 \<le> i" "i < int (length xs)" "0 < c"
  shows "slice i (min (i + c) (int (length xs))) xs @ drop (nat (i + c)) xs = drop (nat i) xs"
proof -
  let ?n = "int (length xs)"
  let ?e = "min (i + c) ?n"
  from assms have sl: "slice i ?e xs = take (nat (?e - i)) (drop (nat i) xs)"
    by (simp add: slice_def Let_def min_def)
  have d: "drop (nat (i + c)) xs = drop (nat (?e - i)) (drop (nat i) xs)"
  proof (cases "i + c \<le> ?n")
    case True
    with assms show ?thesis by (simp add: nat_add_distrib min_def add.commute)
  next
    case False
    with assms show ?thesis by (simp add: min_def)
  qed
  show ?thesis unfolding sl d by (rule append_take_drop_id)
qed

lemma chunkFrom_concat:
  assumes c: "0 < c"
  shows "0 \<le> i \<Longrightarrow> \<exists>chunks. chunkFrom i xs c acc = Some chunks \<and> concat chunks = concat acc @ drop (nat i) xs"
proof (induction "nat (int (length xs) - i)" arbitrary: i acc rule: less_induct)
  case less
  show ?case
  proof (cases "i < int (length xs)")
    case True
    let ?acc = "acc @ [slice i (min (i + c) (int (length xs))) xs]"
    from True c have "nat (int (length xs) - (i + c)) < nat (int (length xs) - i)" by simp
    moreover from less.prems c have "0 \<le> i + c" by simp
    ultimately obtain chunks where r: "chunkFrom (i + c) xs c ?acc = Some chunks"
      and cc: "concat chunks = concat ?acc @ drop (nat (i + c)) xs"
      using less.hyps by blast
    from True r have "chunkFrom i xs c acc = Some chunks"
      by (subst chunkFrom.simps) simp
    moreover from cc slice_chunk [OF less.prems True c]
    have "concat chunks = concat acc @ drop (nat i) xs" by simp
    ultimately show ?thesis by blast
  next
    case False
    then have "chunkFrom i xs c acc = Some acc"
      by (subst chunkFrom.simps) simp
    with False show ?thesis by simp
  qed
qed

lemma chunkArray_concat: "0 < c \<Longrightarrow> \<exists>chunks. chunkArray xs c = Some chunks \<and> concat chunks = xs"
  using chunkFrom_concat [of c 0 xs "[]"] by (simp add: chunkArray_def)

lemma chunkArray_sync: "\<exists>chunks. chunkArray xs (min (int (length xs)) 100) = Some chunks \<and> concat chunks = xs"
proof (cases xs)
  case Nil
  then show ?thesis by (simp add: chunkArray_def chunkFrom.simps)
next
  case (Cons x ys)
  then have "0 < min (int (length xs)) 100" by simp
  then show ?thesis by (rule chunkArray_concat)
qed

lemma foldl_chunks: "foldl (\<lambda>s chunk. foldl f s chunk) s chunks = foldl f s (concat chunks)"
  by (induction chunks arbitrary: s) simp_all

lemma batch_run_flat:
  "batch_run processor rnd items hn
     = Some (foldl (syncStep processor rnd)
               \<lparr> results = [], store = fst hn, drawn = snd hn, entries = [] \<rparr> items)"
proof -
  from chunkArray_sync [of items] obtain chunks
    where "chunkArray items (min (int (length items)) 100) = Some chunks" and "concat chunks = items"
    by blast
  then show ?thesis by (simp add: batch_run_def foldl_chunks)
qed

subsection \<open>The keyed results of a batch\<close>




lemma keyed_snoc: "keyed (es @ [e]) = setProp (key e) (stored e) (keyed es)"
  by (simp add: keyed_def)





text \<open>The loop of the synchronous processor keeps \<^verbatim>\<open>results\<close> equal to what its entries
  give when stored one after the other, and adds one entry per item, in order.\<close>

lemma syncStep_fields:
  "syncItem processor rnd item (store s, drawn s) = (e, h', n') \<Longrightarrow>
     syncStep processor rnd s item
       = \<lparr> results = setProp (key e) (stored e) (results s), store = h', drawn = n',
           entries = entries s @ [e] \<rparr>"
  by (simp add: syncStep_def)

lemma sync_loop:
  "results s = keyed (entries s) \<Longrightarrow>
     results (foldl (syncStep processor rnd) s items) = keyed (entries (foldl (syncStep processor rnd) s items))
   \<and> (\<exists>es. entries (foldl (syncStep processor rnd) s items) = entries s @ es
          \<and> list_all2 (\<lambda>item e. \<exists>hn hn'. syncItem processor rnd item hn = (e, hn')) items es)"
proof (induction items arbitrary: s)
  case Nil
  then show ?case by simp
next
  case (Cons item items)
  obtain e h' n' where it: "syncItem processor rnd item (store s, drawn s) = (e, h', n')"
    by (cases "syncItem processor rnd item (store s, drawn s)") auto
  let ?s = "syncStep processor rnd s item"
  from syncStep_fields [OF it] have r: "results ?s = setProp (key e) (stored e) (results s)"
    and en: "entries ?s = entries s @ [e]" by simp_all
  from r en Cons.prems have inv: "results ?s = keyed (entries ?s)" by (simp add: keyed_snoc)
  from Cons.IH [OF inv] obtain es where
    k: "results (foldl (syncStep processor rnd) ?s items) = keyed (entries (foldl (syncStep processor rnd) ?s items))"
    and es: "entries (foldl (syncStep processor rnd) ?s items) = entries ?s @ es"
    and all: "list_all2 (\<lambda>item e. \<exists>hn hn'. syncItem processor rnd item hn = (e, hn')) items es"
    by blast
  from it all have "list_all2 (\<lambda>item e. \<exists>hn hn'. syncItem processor rnd item hn = (e, hn')) (item # items) (e # es)"
    by auto
  moreover from es en have "entries (foldl (syncStep processor rnd) s (item # items)) = entries s @ (e # es)"
    by simp
  ultimately show ?case using k by auto
qed

subsection \<open>One item of a batch\<close>

text \<open>What the \<^verbatim>\<open>try\<close>/\<^verbatim>\<open>catch\<close> around one item leaves: either a failure marker for an
  error the processor threw, or the processor's result.\<close>

lemma itemFailed_marker:
  "itemFailed rnd item x c hn = (e, h', n') \<Longrightarrow>
     failed e \<and> calls e = c \<and> stored e = Ref (length (fst hn)) \<and> h' = fst hn @ [failureMarker x]
     \<and> propsOf h' (stored e) = failureMarker x"
  by (auto simp: itemFailed_def alloc_def split: prod.splits)

lemma syncItem_cases:
  assumes "syncItem processor rnd item (h, n) = (e, h', n')"
  shows "(failed e \<and> (\<exists>x ha hb. node_execute processor item ha = (Inl x, hb)
                        \<and> propsOf h' (stored e) = failureMarker x) \<and> (calls e = 1 \<or> calls e = 2))
       \<or> (\<not> failed e \<and> calls e = 2
           \<and> (\<exists>r1 h1. node_execute processor item h = (Inr r1, h1)
                 \<and> node_execute processor item h1 = (Inr (stored e), h')
                 \<and> key e = fst (getResultKey rnd item r1 (h1, n))))"
proof (cases "node_execute processor item h")
  case (Pair r1 h1)
  show ?thesis
  proof (cases r1)
    case (Inl x)
    with Pair assms have "itemFailed rnd item x 1 (h1, n) = (e, h', n')"
      by (simp add: syncItem_def)
    from itemFailed_marker [OF this] Pair Inl show ?thesis by auto
  next
    case (Inr v1)
    obtain k n1 where gk: "getResultKey rnd item v1 (h1, n) = (k, n1)"
      by (cases "getResultKey rnd item v1 (h1, n)") auto
    obtain r2 h2 where second: "node_execute processor item h1 = (r2, h2)"
      by (cases "node_execute processor item h1") auto
    show ?thesis
    proof (cases r2)
      case (Inl x)
      with Pair Inr gk second assms have "itemFailed rnd item x 2 (h2, n1) = (e, h', n')"
        by (simp add: syncItem_def)
      from itemFailed_marker [OF this] second Inl show ?thesis by auto
    next
      case (Inr v2)
      with Pair \<open>r1 = Inr v1\<close> gk second assms
      have "e = \<lparr> key = k, stored = v2, failed = False, calls = 2 \<rparr>" and "h' = h2"
        by (simp_all add: syncItem_def)
      with Pair \<open>r1 = Inr v1\<close> gk second Inr show ?thesis by simp
    qed
  qed
qed


subsection \<open>Tasks that never reject\<close>





lemma calls_total:
  "list_all2 (\<lambda>item e. \<exists>hn hn'. syncItem processor rnd item hn = (e, hn')) items es \<Longrightarrow>
     \<forall>e\<in>set es. \<not> failed e \<Longrightarrow> sum_list (map calls es) = 2 * length items"
proof (induction items es rule: list_all2_induct)
  case Nil
  then show ?case by simp
next
  case (Cons item items e es)
  from Cons.hyps(1) obtain h n h' n' where s: "syncItem processor rnd item (h, n) = (e, h', n')"
    by auto
  from Cons.prems have "\<not> failed e" by simp
  with syncItem_cases [OF s] have "calls e = 2" by auto
  with Cons show ?case by simp
qed

subsection \<open>C6: a failing item does not abort the batch\<close>





subsection \<open>C10: the synchronous batch runs the item node twice\<close>

text \<open>
  C10.  In the synchronous BatchProcessor the per-item node's \<^verbatim>\<open>execute\<close> is called exactly
  twice for every item whose processing succeeds, once to derive the result key and once to
  produce the stored result; a node with side effects runs twice per item, and the key and
  the stored value may come from different invocations.

  In the model: when the entry of an item is no failure marker, \<^verbatim>\<open>processor.execute(item)\<close>
  ran on the heap before the item, returned \<open>r1\<close>, from which (in the heap it left) the key
  was taken, and ran again on that heap, returning the stored value and the heap after the
  item; over a batch without failures the calls add up to twice the number of items.  For
  the item \<^verbatim>\<open>{id: 1}\<close> and a node whose finalize adds one to \<^verbatim>\<open>id\<close>, the key is
  \<^verbatim>\<open>"2"\<close>, read after the first run, and the stored object has \<^verbatim>\<open>id = 3\<close>, after the
  second.
\<close>

theorem sync_batch_executes_item_twice:
  "(syncItem processor rnd item (h, n) = (e, h', n') \<and> \<not> failed e \<longrightarrow>
      calls e = 2
    \<and> (\<exists>r1 hm. node_execute processor item h = (Inr r1, hm)
          \<and> node_execute processor item hm = (Inr (stored e), h')
          \<and> key e = fst (getResultKey rnd item r1 (hm, n))))
   \<and> (batch_run processor rnd items (hs, ns) = Some s \<and> (\<forall>e\<in>set (entries s). \<not> failed e) \<longrightarrow>
      sum_list (map calls (entries s)) = 2 * length items)
   \<and> key (fst (syncItem (withFinalize bumpId createNode) noRandom (Ref 0) ([[(''id'', Num 1)]], 0))) = ''2''
   \<and> getV (fst (snd (syncItem (withFinalize bumpId createNode) noRandom (Ref 0) ([[(''id'', Num 1)]], 0))))
        (stored (fst (syncItem (withFinalize bumpId createNode) noRandom (Ref 0) ([[(''id'', Num 1)]], 0))))
        ''id'' = Num 3"
proof (intro conjI impI)
  assume a: "syncItem processor rnd item (h, n) = (e, h', n') \<and> \<not> failed e"
  then have s: "syncItem processor rnd item (h, n) = (e, h', n')" and f: "\<not> failed e" by simp_all
  from syncItem_cases [OF s] f show "calls e = 2" by blast
  from syncItem_cases [OF s] f
  show "\<exists>r1 hm. node_execute processor item h = (Inr r1, hm)
          \<and> node_execute processor item hm = (Inr (stored e), h')
          \<and> key e = fst (getResultKey rnd item r1 (hm, n))" by blast
next
  assume a: "batch_run processor rnd items (hs, ns) = Some s \<and> (\<forall>e\<in>set (entries s). \<not> failed e)"
  let ?init = "\<lparr> results = [], store = hs, drawn = ns, entries = [] \<rparr>"
  from a batch_run_flat [of processor rnd items "(hs, ns)"]
  have s: "s = foldl (syncStep processor rnd) ?init items" by simp
  have "results ?init = keyed (entries ?init)" by (simp add: keyed_def)
  from sync_loop [OF this, of processor rnd items] s
  have all: "list_all2 (\<lambda>item e. \<exists>hn hn'. syncItem processor rnd item hn = (e, hn')) items (entries s)"
    by auto
  from a have "\<forall>e\<in>set (entries s). \<not> failed e" by simp
  with all show "sum_list (map calls (entries s)) = 2 * length items" by (rule calls_total)
next
  show "key (fst (syncItem (withFinalize bumpId createNode) noRandom (Ref 0) ([[(''id'', Num 1)]], 0))) = ''2''"
    by code_simp
  show "getV (fst (snd (syncItem (withFinalize bumpId createNode) noRandom (Ref 0) ([[(''id'', Num 1)]], 0))))
        (stored (fst (syncItem (withFinalize bumpId createNode) noRandom (Ref 0) ([[(''id'', Num 1)]], 0))))
        ''id'' = Num 3"
    by code_simp
qed

theorem sync_batch_executes_item_twice_witness:
  "calls (fst (syncItem (withFinalize bumpId createNode) noRandom (Ref 0) ([[(''id'', Num 1)]], 0))) = 2
   \<and> (\<exists>r1 hm. node_execute (withFinalize bumpId createNode) (Ref 0) [[(''id'', Num 1)]] = (Inr r1, hm)
        \<and> getV hm (Ref 0) ''id'' = Num 2
        \<and> key (fst (syncItem (withFinalize bumpId createNode) noRandom (Ref 0) ([[(''id'', Num 1)]], 0)))
            = fst (getResultKey noRandom (Ref 0) r1 (hm, 0)))
   \<and> sum_list (map calls (entries (the (batch_run createNode noRandom [Ref 1, Ref 2] (batchHeap, 0)))))
       = 2 * length [Ref 1, Ref 2 :: val]"
proof -
  let ?B = "withFinalize bumpId createNode"
  let ?h = "[[(''id'', Num 1)]]"
  let ?it = "syncItem ?B noRandom (Ref 0) (?h, 0)"
  let ?run = "batch_run createNode noRandom [Ref 1, Ref 2] (batchHeap, 0)"
  have it: "syncItem ?B noRandom (Ref 0) (?h, 0) = (fst ?it, fst (snd ?it), snd (snd ?it)) \<and> \<not> failed (fst ?it)"
    by code_simp
  have first: "getV (snd (node_execute ?B (Ref 0) ?h)) (Ref 0) ''id'' = Num 2"
    by code_simp
  have run: "?run = Some (the ?run) \<and> (\<forall>e\<in>set (entries (the ?run)). \<not> failed e)"
    by code_simp
  note t = sync_batch_executes_item_twice [where processor = ?B and rnd = noRandom and item = "Ref 0"
      and h = ?h and n = 0 and e = "fst ?it" and h' = "fst (snd ?it)" and n' = "snd (snd ?it)"]
  note t1 = t [THEN conjunct1, rule_format, OF it]
  note u = sync_batch_executes_item_twice [where processor = createNode and rnd = noRandom
      and items = "[Ref 1, Ref 2]" and hs = batchHeap and ns = 0 and s = "the ?run"]
  note u2 = u [THEN conjunct2, THEN conjunct1, rule_format, OF run]
  from conjunct2 [OF t1] have part2: "\<exists>r1 hm. node_execute ?B (Ref 0) ?h = (Inr r1, hm)
        \<and> getV hm (Ref 0) ''id'' = Num 2
        \<and> key (fst ?it) = fst (getResultKey noRandom (Ref 0) r1 (hm, 0))"
  proof (elim exE conjE)
    fix r1 hm
    assume a: "node_execute ?B (Ref 0) ?h = (Inr r1, hm)"
      and k: "key (fst ?it) = fst (getResultKey noRandom (Ref 0) r1 (hm, 0))"
    from a have "snd (node_execute ?B (Ref 0) ?h) = hm" by simp
    with first have g: "getV hm (Ref 0) ''id'' = Num 2" by simp
    show ?thesis
    proof (intro exI conjI)
      show "node_execute ?B (Ref 0) ?h = (Inr r1, hm)" by (rule a)
      show "getV hm (Ref 0) ''id'' = Num 2" by (rule g)
      show "key (fst ?it) = fst (getResultKey noRandom (Ref 0) r1 (hm, 0))" by (rule k)
    qed
  qed
  from conjunct1 [OF t1] part2 u2 show ?thesis by (intro conjI)
qed

end
